theory Spec2Isabelle
  imports Complex_Main "HOL-Library.AList"
begin

section \<open>The dual-tier cache engine of src/lib/cache.ts\<close>

text \<open>
  A shallow embedding of the classes \<^verbatim>\<open>CacheEngine\<close> and \<^verbatim>\<open>CacheService\<close>.

  \<^item> The private fields of the class are the fields of the record \<open>engine\<close>; every method
    takes the engine and returns its result together with the updated engine.
  \<^item> \<^verbatim>\<open>Date.now()\<close> reads the field \<open>clock\<close> (milliseconds, an integer). A method does not
    advance the clock; time passes between calls (\<open>advance\<close>) and in the polling delay of
    \<^verbatim>\<open>acquireLock\<close>.
  \<^item> The remote client (\<^verbatim>\<open>RedisClient\<close> of the runtime) is not part of the repository: its
    methods are the fields of the record \<open>env\<close>, functions on an arbitrary backend state
    \<open>'r\<close> that either fail or reply. \<^verbatim>\<open>JSON.stringify\<close> and \<^verbatim>\<open>JSON.parse\<close> are fields of
    \<open>env\<close> as well. Every theorem holds for every such environment.
  \<^item> A thrown exception is the left injection of the result; a \<^verbatim>\<open>try\<close> block is a function
    named \<open>_body\<close> and the method applies its \<^verbatim>\<open>catch\<close> handler to it.
  \<^item> Numbers are integers (counters, timestamps, whole seconds); the logger is not modelled.
\<close>

subsection \<open>Values\<close>

datatype jsval =
    JNull
  | JUndefined
  | JBool bool
  | JNum int
  | JStr string
  | JObj "(string \<times> jsval) list"

text \<open>The truth value JavaScript gives a value in a condition.\<close>

fun truthy :: "jsval \<Rightarrow> bool" where
  "truthy JNull = False"
| "truthy JUndefined = False"
| "truthy (JBool b) = b"
| "truthy (JNum n) = (n \<noteq> 0)"
| "truthy (JStr s) = (s \<noteq> [])"
| "truthy (JObj props) = True"


text \<open>What is thrown: a failure of a tier (of the transport or of the codec), the
  \<^verbatim>\<open>TypeError\<close> of the language, or an error of the caller's own code.\<close>

datatype error = Transport string | Serialization string | TypeError | CallerError string

text \<open>Decimal rendering of an integer, as a template literal renders a whole number.\<close>

definition digit_char :: "nat \<Rightarrow> char" where
  "digit_char d =
     (if d = 0 then CHR ''0'' else if d = 1 then CHR ''1'' else if d = 2 then CHR ''2''
      else if d = 3 then CHR ''3'' else if d = 4 then CHR ''4'' else if d = 5 then CHR ''5''
      else if d = 6 then CHR ''6'' else if d = 7 then CHR ''7'' else if d = 8 then CHR ''8''
      else CHR ''9'')"

fun nat_to_string :: "nat \<Rightarrow> string" where
  "nat_to_string n =
     (if n < 10 then [digit_char n] else nat_to_string (n div 10) @ [digit_char (n mod 10)])"

declare nat_to_string.simps [simp del]

definition int_to_string :: "int \<Rightarrow> string" where
  "int_to_string i = (if i < 0 then CHR ''-'' # nat_to_string (nat (- i)) else nat_to_string (nat i))"

text \<open>
  The numbers of the rate limiter: a division by zero leaves the integers. The quotient of
  two integers under \<^verbatim>\<open>Math.floor\<close>, the product with a whole number, and the rendering in
  a template literal.
\<close>

datatype number = Finite int | PosInfinity | NegInfinity | NaN

definition floor_quotient :: "int \<Rightarrow> int \<Rightarrow> number" where
  "floor_quotient a b =
     (if b = 0 then (if a > 0 then PosInfinity else if a < 0 then NegInfinity else NaN)
      else Finite (a div b))"

definition times :: "number \<Rightarrow> int \<Rightarrow> number" where
  "times x k =
     (case x of
        Finite i \<Rightarrow> Finite (i * k)
      | PosInfinity \<Rightarrow> (if k > 0 then PosInfinity else if k < 0 then NegInfinity else NaN)
      | NegInfinity \<Rightarrow> (if k > 0 then NegInfinity else if k < 0 then PosInfinity else NaN)
      | NaN \<Rightarrow> NaN)"

definition plus_one :: "number \<Rightarrow> number" where
  "plus_one x = (case x of Finite i \<Rightarrow> Finite (i + 1) | y \<Rightarrow> y)"

definition number_to_string :: "number \<Rightarrow> string" where
  "number_to_string x =
     (case x of
        Finite i \<Rightarrow> int_to_string i
      | PosInfinity \<Rightarrow> ''Infinity''
      | NegInfinity \<Rightarrow> ''-Infinity''
      | NaN \<Rightarrow> ''NaN'')"

subsection \<open>Interfaces\<close>

record config =
  primaryEndpoint :: string
  entryLifespan :: int
  memoryTierLimit :: int

record entry =
  entry_value :: jsval
  expiration :: "int option"
  lastAccessed :: int

record metrics =
  successful :: nat
  failed :: nat
  writes :: nat
  removals :: nat
  currentSize :: int
  efficiency :: real

record trafficControlResult =
  permitted :: bool
  quota :: int
  windowReset :: number
  requestCount :: int

text \<open>
  The environment: the methods of the remote client that the engine calls, and the JSON
  codec. \<open>redis_new\<close> is the constructor of the client, \<open>redis_ping\<close>, \<open>redis_incrby\<close> and
  \<open>redis_flushdb\<close> are the commands sent with \<^verbatim>\<open>send\<close>.
\<close>

record 'r env =
  json_stringify :: "jsval \<Rightarrow> error + string"
  json_parse :: "string \<Rightarrow> error + jsval"
  redis_new :: "string \<Rightarrow> 'r \<Rightarrow> (error + unit) \<times> 'r"
  redis_ping :: "'r \<Rightarrow> (error + unit) \<times> 'r"
  redis_set :: "string \<Rightarrow> string \<Rightarrow> 'r \<Rightarrow> (error + unit) \<times> 'r"
  redis_expire :: "string \<Rightarrow> int \<Rightarrow> 'r \<Rightarrow> (error + unit) \<times> 'r"
  redis_get :: "string \<Rightarrow> 'r \<Rightarrow> (error + string option) \<times> 'r"
  redis_exists :: "string \<Rightarrow> 'r \<Rightarrow> (error + bool) \<times> 'r"
  redis_del :: "string \<Rightarrow> 'r \<Rightarrow> (error + int) \<times> 'r"
  redis_incr :: "string \<Rightarrow> 'r \<Rightarrow> (error + int) \<times> 'r"
  redis_incrby :: "string \<Rightarrow> int \<Rightarrow> 'r \<Rightarrow> (error + int) \<times> 'r"
  redis_ttl :: "string \<Rightarrow> 'r \<Rightarrow> (error + int) \<times> 'r"
  redis_flushdb :: "'r \<Rightarrow> (error + unit) \<times> 'r"

text \<open>
  The engine. \<open>primaryClient\<close> tells whether the client handle is set (not \<^verbatim>\<open>null\<close>);
  \<open>memoryCache\<close> is the \<^verbatim>\<open>Map\<close> in insertion order; \<open>clock\<close> and \<open>remote\<close> are the
  surroundings: the current time and the state of the remote backend.
\<close>

record 'r engine =
  config :: config
  primaryClient :: bool
  memoryCache :: "(string \<times> entry) list"
  metrics :: metrics
  primaryActive :: bool
  connectionReady :: bool
  clock :: int
  remote :: 'r

definition initial_metrics :: metrics where
  "initial_metrics =
     \<lparr>successful = 0, failed = 0, writes = 0, removals = 0, currentSize = 0, efficiency = 0\<rparr>"

definition advance :: "int \<Rightarrow> 'r engine \<Rightarrow> 'r engine" where
  "advance ms s = s\<lparr>clock := clock s + ms\<rparr>"

subsection \<open>Connection\<close>

definition establishPrimaryConnection :: "'r env \<Rightarrow> 'r engine \<Rightarrow> 'r engine" where
  "establishPrimaryConnection E s =
     (if connectionReady s then s
      else
        let s0 = s\<lparr>connectionReady := True\<rparr> in
        case redis_new E (primaryEndpoint (config s0)) (remote s0) of
          (Inl e, r1) \<Rightarrow> s0\<lparr>remote := r1, primaryActive := False, primaryClient := False\<rparr>
        | (Inr u, r1) \<Rightarrow>
            (case redis_ping E r1 of
               (Inl e, r2) \<Rightarrow> s0\<lparr>remote := r2, primaryActive := False, primaryClient := False\<rparr>
             | (Inr v, r2) \<Rightarrow> s0\<lparr>remote := r2, primaryClient := True, primaryActive := True\<rparr>))"

text \<open>The constructor: the configuration with its defaults, then the connection attempt.\<close>

definition make_config :: "string option \<Rightarrow> string option \<Rightarrow> int option \<Rightarrow> int option \<Rightarrow> config" where
  "make_config endpoint REDIS_URL lifespan limit =
     \<lparr>primaryEndpoint =
        (case endpoint of Some e \<Rightarrow> e | None \<Rightarrow> (case REDIS_URL of Some u \<Rightarrow> u | None \<Rightarrow> [])),
      entryLifespan = (case lifespan of Some l \<Rightarrow> l | None \<Rightarrow> 3600),
      memoryTierLimit = (case limit of Some m \<Rightarrow> m | None \<Rightarrow> 10000)\<rparr>"

definition new_engine :: "'r env \<Rightarrow> config \<Rightarrow> int \<Rightarrow> 'r \<Rightarrow> 'r engine" where
  "new_engine E c now r =
     (let s = \<lparr>config = c, primaryClient = False, memoryCache = [], metrics = initial_metrics,
                primaryActive = False, connectionReady = False, clock = now, remote = r\<rparr>
      in if primaryEndpoint c \<noteq> [] then establishPrimaryConnection E s else s)"

text \<open>The first statement of most methods: connect when no attempt has been made yet.\<close>

definition ensure_connection :: "'r env \<Rightarrow> 'r engine \<Rightarrow> 'r engine" where
  "ensure_connection E s =
     (if \<not> connectionReady s \<and> primaryEndpoint (config s) \<noteq> []
      then establishPrimaryConnection E s else s)"

definition isPrimaryActive :: "'r engine \<Rightarrow> bool" where
  "isPrimaryActive s = (primaryActive s \<and> primaryClient s)"

subsection \<open>Metrics\<close>

definition getMetrics :: "'r engine \<Rightarrow> metrics \<times> 'r engine" where
  "getMetrics s =
     (let totalOps = successful (metrics s) + failed (metrics s);
          m1 = (metrics s)\<lparr>efficiency :=
                  (if totalOps > 0 then real (successful (metrics s)) / real totalOps else 0)\<rparr>;
          m2 = m1\<lparr>currentSize := (if isPrimaryActive s then - 1 else int (length (memoryCache s)))\<rparr>
      in (m2, s\<lparr>metrics := m2\<rparr>))"

definition count_successful :: "'r engine \<Rightarrow> 'r engine" where
  "count_successful s = s\<lparr>metrics := (metrics s)\<lparr>successful := successful (metrics s) + 1\<rparr>\<rparr>"

definition count_failed :: "'r engine \<Rightarrow> 'r engine" where
  "count_failed s = s\<lparr>metrics := (metrics s)\<lparr>failed := failed (metrics s) + 1\<rparr>\<rparr>"

definition count_write :: "'r engine \<Rightarrow> 'r engine" where
  "count_write s = s\<lparr>metrics := (metrics s)\<lparr>writes := writes (metrics s) + 1\<rparr>\<rparr>"

definition count_removal :: "'r engine \<Rightarrow> 'r engine" where
  "count_removal s = s\<lparr>metrics := (metrics s)\<lparr>removals := removals (metrics s) + 1\<rparr>\<rparr>"

subsection \<open>The local tier\<close>

text \<open>
  The two expiration tests of the source. A missing expiration and an expiration of 0 are
  both falsy in JavaScript: such an entry has no expiration.
\<close>

definition is_expired :: "int \<Rightarrow> entry \<Rightarrow> bool" where
  "is_expired now en = (case expiration en of None \<Rightarrow> False | Some t \<Rightarrow> t \<noteq> 0 \<and> now > t)"

definition is_live :: "int \<Rightarrow> entry \<Rightarrow> bool" where
  "is_live now en = (case expiration en of None \<Rightarrow> True | Some t \<Rightarrow> t = 0 \<or> now \<le> t)"

text \<open>The loop of \<^verbatim>\<open>evict\<close>: the candidate key and the oldest access time seen so far.\<close>

fun evict_scan :: "(string \<times> entry) list \<Rightarrow> string \<times> int \<Rightarrow> string \<times> int" where
  "evict_scan [] acc = acc"
| "evict_scan ((key, en) # rest) (candidateKey, oldestAccess) =
     (if lastAccessed en < oldestAccess then evict_scan rest (key, lastAccessed en)
      else evict_scan rest (candidateKey, oldestAccess))"

definition evict :: "'r engine \<Rightarrow> 'r engine" where
  "evict s =
     (let candidateKey = fst (evict_scan (memoryCache s) ([], clock s))
      in if candidateKey \<noteq> [] then s\<lparr>memoryCache := AList.delete candidateKey (memoryCache s)\<rparr>
         else s)"

subsection \<open>The engine's operations\<close>

text \<open>\<^verbatim>\<open>set\<close>: the \<^verbatim>\<open>try\<close> block, then the method with its handler.\<close>

definition set_body ::
  "'r env \<Rightarrow> string \<Rightarrow> jsval \<Rightarrow> int option \<Rightarrow> 'r engine \<Rightarrow> (error + bool) \<times> 'r engine" where
  "set_body E key v lifespan s =
     (let s1 = ensure_connection E s in
      if isPrimaryActive s1 then
        (case json_stringify E v of
           Inl e \<Rightarrow> (Inl e, s1)
         | Inr encoded \<Rightarrow>
             (case redis_set E key encoded (remote s1) of
                (Inl e, r1) \<Rightarrow> (Inl e, s1\<lparr>remote := r1\<rparr>)
              | (Inr u, r1) \<Rightarrow>
                  let ttl = (case lifespan of Some l \<Rightarrow> l | None \<Rightarrow> entryLifespan (config s1)) in
                  if ttl > 0 then
                    (case redis_expire E key ttl r1 of
                       (Inl e, r2) \<Rightarrow> (Inl e, s1\<lparr>remote := r2\<rparr>)
                     | (Inr w, r2) \<Rightarrow> (Inr True, count_write (s1\<lparr>remote := r2\<rparr>)))
                  else (Inr True, count_write (s1\<lparr>remote := r1\<rparr>))))
      else
        let s2 = (if int (length (memoryCache s1)) \<ge> memoryTierLimit (config s1)
                  then evict s1 else s1);
            expiration =
              (case lifespan of
                 Some l \<Rightarrow> Some (clock s2 + l * 1000)
               | None \<Rightarrow>
                   if entryLifespan (config s2) > 0
                   then Some (clock s2 + entryLifespan (config s2) * 1000) else None);
            s3 = s2\<lparr>memoryCache :=
                   AList.update key
                     \<lparr>entry_value = v, expiration = expiration, lastAccessed = clock s2\<rparr>
                     (memoryCache s2)\<rparr>
        in (Inr True, count_write s3))"

definition set_op ::
  "'r env \<Rightarrow> string \<Rightarrow> jsval \<Rightarrow> int option \<Rightarrow> 'r engine \<Rightarrow> (error + bool) \<times> 'r engine" where
  "set_op E key v lifespan s =
     (case set_body E key v lifespan s of
        (Inl e, s') \<Rightarrow> (Inr False, s')
      | (Inr b, s') \<Rightarrow> (Inr b, s'))"

text \<open>\<^verbatim>\<open>get\<close>: a miss is \<^verbatim>\<open>null\<close>.\<close>

definition get_body :: "'r env \<Rightarrow> string \<Rightarrow> 'r engine \<Rightarrow> (error + jsval) \<times> 'r engine" where
  "get_body E key s =
     (let s1 = ensure_connection E s in
      if isPrimaryActive s1 then
        (case redis_get E key (remote s1) of
           (Inl e, r1) \<Rightarrow> (Inl e, s1\<lparr>remote := r1\<rparr>)
         | (Inr raw, r1) \<Rightarrow>
             (case raw of
                None \<Rightarrow> (Inr JNull, count_failed (s1\<lparr>remote := r1\<rparr>))
              | Some str \<Rightarrow>
                  if str \<noteq> [] then
                    (case json_parse E str of
                       Inl e \<Rightarrow> (Inl e, count_successful (s1\<lparr>remote := r1\<rparr>))
                     | Inr v \<Rightarrow> (Inr v, count_successful (s1\<lparr>remote := r1\<rparr>)))
                  else (Inr JNull, count_failed (s1\<lparr>remote := r1\<rparr>))))
      else
        (case map_of (memoryCache s1) key of
           None \<Rightarrow> (Inr JNull, count_failed s1)
         | Some en \<Rightarrow>
             if is_expired (clock s1) en then
               (Inr JNull, count_failed (s1\<lparr>memoryCache := AList.delete key (memoryCache s1)\<rparr>))
             else
               (Inr (entry_value en),
                count_successful
                  (s1\<lparr>memoryCache :=
                        AList.update key (en\<lparr>lastAccessed := clock s1\<rparr>) (memoryCache s1)\<rparr>))))"

definition get :: "'r env \<Rightarrow> string \<Rightarrow> 'r engine \<Rightarrow> (error + jsval) \<times> 'r engine" where
  "get E key s =
     (case get_body E key s of
        (Inl e, s') \<Rightarrow> (Inr JNull, count_failed s')
      | (Inr v, s') \<Rightarrow> (Inr v, s'))"



definition delete_body :: "'r env \<Rightarrow> string \<Rightarrow> 'r engine \<Rightarrow> (error + bool) \<times> 'r engine" where
  "delete_body E key s =
     (let s1 = ensure_connection E s in
      if isPrimaryActive s1 then
        (case redis_del E key (remote s1) of
           (Inl e, r1) \<Rightarrow> (Inl e, s1\<lparr>remote := r1\<rparr>)
         | (Inr result, r1) \<Rightarrow> (Inr (result > 0), count_removal (s1\<lparr>remote := r1\<rparr>)))
      else
        let wasPresent = (map_of (memoryCache s1) key \<noteq> None);
            s2 = s1\<lparr>memoryCache := AList.delete key (memoryCache s1)\<rparr>
        in (Inr wasPresent, if wasPresent then count_removal s2 else s2))"

definition delete :: "'r env \<Rightarrow> string \<Rightarrow> 'r engine \<Rightarrow> (error + bool) \<times> 'r engine" where
  "delete E key s =
     (case delete_body E key s of
        (Inl e, s') \<Rightarrow> (Inr False, s')
      | (Inr b, s') \<Rightarrow> (Inr b, s'))"

text \<open>The value the local branch of \<^verbatim>\<open>increment\<close> starts from.\<close>

definition currentVal :: "'r engine \<Rightarrow> string \<Rightarrow> int" where
  "currentVal s key =
     (case map_of (memoryCache s) key of
        None \<Rightarrow> 0
      | Some en \<Rightarrow>
          if is_live (clock s) en
          then (case entry_value en of JNum n \<Rightarrow> n | _ \<Rightarrow> 0) else 0)"

text \<open>\<^verbatim>\<open>increment\<close>: its handler logs and throws the error again.\<close>

definition increment_body :: "'r env \<Rightarrow> string \<Rightarrow> int \<Rightarrow> 'r engine \<Rightarrow> (error + int) \<times> 'r engine" where
  "increment_body E key step s =
     (let s1 = ensure_connection E s in
      if isPrimaryActive s1 then
        (case (if step = 1 then redis_incr E key (remote s1)
               else redis_incrby E key step (remote s1)) of
           (Inl e, r1) \<Rightarrow> (Inl e, s1\<lparr>remote := r1\<rparr>)
         | (Inr n, r1) \<Rightarrow> (Inr n, s1\<lparr>remote := r1\<rparr>))
      else
        let updatedVal = currentVal s1 key + step
        in (case set_op E key (JNum updatedVal) None s1 of
              (Inl e, s2) \<Rightarrow> (Inl e, s2)
            | (Inr b, s2) \<Rightarrow> (Inr updatedVal, s2)))"

definition increment :: "'r env \<Rightarrow> string \<Rightarrow> int \<Rightarrow> 'r engine \<Rightarrow> (error + int) \<times> 'r engine" where
  "increment E key step s =
     (case increment_body E key step s of
        (Inl e, s') \<Rightarrow> (Inl e, s')
      | (Inr n, s') \<Rightarrow> (Inr n, s'))"

text \<open>
  \<^verbatim>\<open>setBatch\<close> and \<^verbatim>\<open>getBatch\<close>: one \<^verbatim>\<open>set\<close> or \<^verbatim>\<open>get\<close> per item, taken in the order of
  the items; a rejected item would reject \<^verbatim>\<open>Promise.all\<close> and reach the handler.
\<close>

fun setBatch_outcomes ::
  "'r env \<Rightarrow> (string \<times> jsval) list \<Rightarrow> int option \<Rightarrow> 'r engine \<Rightarrow> (error + bool list) \<times> 'r engine" where
  "setBatch_outcomes E [] lifespan s = (Inr [], s)"
| "setBatch_outcomes E ((key, v) # rest) lifespan s =
     (case set_op E key v lifespan s of
        (Inl e, s1) \<Rightarrow> (Inl e, s1)
      | (Inr outcome, s1) \<Rightarrow>
          (case setBatch_outcomes E rest lifespan s1 of
             (Inl e, s2) \<Rightarrow> (Inl e, s2)
           | (Inr outcomes, s2) \<Rightarrow> (Inr (outcome # outcomes), s2)))"


fun getBatch_outcomes ::
  "'r env \<Rightarrow> string list \<Rightarrow> 'r engine \<Rightarrow> (error + (string \<times> jsval) list) \<times> 'r engine" where
  "getBatch_outcomes E [] s = (Inr [], s)"
| "getBatch_outcomes E (key # rest) s =
     (case get E key s of
        (Inl e, s1) \<Rightarrow> (Inl e, s1)
      | (Inr v, s1) \<Rightarrow>
          (case getBatch_outcomes E rest s1 of
             (Inl e, s2) \<Rightarrow> (Inl e, s2)
           | (Inr outcomes, s2) \<Rightarrow> (Inr ((key, v) # outcomes), s2)))"



text \<open>
  \<^verbatim>\<open>getOrSet\<close> has no handler of its own. The generator is the caller's code: it runs on
  the caller's state \<open>'w\<close>, so the number of its runs can be read off that state, and it
  returns its result or throws; what it throws leaves \<^verbatim>\<open>getOrSet\<close> as it is.
\<close>

definition getOrSet ::
  "'r env \<Rightarrow> string \<Rightarrow> ('w \<Rightarrow> (error + jsval) \<times> 'w) \<Rightarrow> int option \<Rightarrow> 'r engine \<times> 'w
     \<Rightarrow> (error + jsval) \<times> 'r engine \<times> 'w" where
  "getOrSet E key generator lifespan sw =
     (case get E key (fst sw) of
        (Inl e, s1) \<Rightarrow> (Inl e, s1, snd sw)
      | (Inr cached, s1) \<Rightarrow>
          if cached \<noteq> JNull then (Inr cached, s1, snd sw)
          else
            (case generator (snd sw) of
               (Inl e, w1) \<Rightarrow> (Inl e, s1, w1)
             | (Inr fresh, w1) \<Rightarrow>
                 (case set_op E key fresh lifespan s1 of
                    (Inl e, s2) \<Rightarrow> (Inl e, s2, w1)
                  | (Inr b, s2) \<Rightarrow> (Inr fresh, s2, w1))))"

text \<open>\<^verbatim>\<open>rateLimit\<close>: fixed-window counters.\<close>

definition controlKey :: "string \<Rightarrow> number \<Rightarrow> string" where
  "controlKey key window = ''traffic:'' @ key @ '':'' @ number_to_string window"

definition rateLimit_body ::
  "'r env \<Rightarrow> string \<Rightarrow> int \<Rightarrow> int \<Rightarrow> 'r engine \<Rightarrow> (error + trafficControlResult) \<times> 'r engine" where
  "rateLimit_body E key maxRequests windowSeconds s =
     (let timestamp = clock s;
          window = floor_quotient timestamp (windowSeconds * 1000)
      in case increment E (controlKey key window) 1 s of
           (Inl e, s1) \<Rightarrow> (Inl e, s1)
         | (Inr current, s1) \<Rightarrow>
             (case (if current = 1
                    then set_op E (controlKey key window) (JNum current) (Some windowSeconds) s1
                    else (Inr True, s1)) of
                (Inl e, s2) \<Rightarrow> (Inl e, s2)
              | (Inr b, s2) \<Rightarrow>
                  (Inr \<lparr>permitted = (current \<le> maxRequests),
                        quota = max 0 (maxRequests - current),
                        windowReset = times (times (plus_one window) windowSeconds) 1000,
                        requestCount = current\<rparr>, s2)))"

definition rateLimit ::
  "'r env \<Rightarrow> string \<Rightarrow> int \<Rightarrow> int \<Rightarrow> 'r engine \<Rightarrow> (error + trafficControlResult) \<times> 'r engine" where
  "rateLimit E key maxRequests windowSeconds s =
     (case rateLimit_body E key maxRequests windowSeconds s of
        (Inl e, s') \<Rightarrow>
          (Inr \<lparr>permitted = True,
                quota = maxRequests - 1,
                windowReset = Finite (clock s' + windowSeconds * 1000),
                requestCount = 1\<rparr>, s')
      | (Inr res, s') \<Rightarrow> (Inr res, s'))"

text \<open>Sessions. A session is an object with the four properties of \<^verbatim>\<open>CacheUserSession\<close>.\<close>

definition sessionKey :: "string \<Rightarrow> string" where
  "sessionKey sessionId = ''user_session:'' @ sessionId"










subsection \<open>The service: the lock\<close>

text \<open>No method of the engine moves the clock; the polling loop of the lock relies on it.\<close>

lemma clock_establish: "clock (establishPrimaryConnection E s) = clock s"
  by (simp add: establishPrimaryConnection_def Let_def split: prod.splits sum.splits)

lemma clock_ensure_connection: "clock (ensure_connection E s) = clock s"
  by (simp add: ensure_connection_def clock_establish)

lemma clock_count [simp]:
  "clock (count_write s) = clock s" "clock (count_failed s) = clock s"
  "clock (count_successful s) = clock s" "clock (count_removal s) = clock s"
  by (simp_all add: count_write_def count_failed_def count_successful_def count_removal_def)

lemma clock_evict: "clock (evict s) = clock s"
  by (simp add: evict_def Let_def)

lemma clock_set_body: "clock (snd (set_body E key v lifespan s)) = clock s"
  by (simp add: set_body_def Let_def clock_ensure_connection clock_evict
      split: prod.splits sum.splits option.splits)

lemma clock_set_op: "clock (snd (set_op E key v lifespan s)) = clock s"
  using clock_set_body [of E key v lifespan s]
  by (auto simp: set_op_def split: prod.splits sum.splits)

lemma clock_get_body: "clock (snd (get_body E key s)) = clock s"
  by (simp add: get_body_def Let_def clock_ensure_connection
      split: prod.splits sum.splits option.splits)

lemma clock_get: "clock (snd (get E key s)) = clock s"
  using clock_get_body [of E key s]
  by (auto simp: get_def split: prod.splits sum.splits)

text \<open>
  \<^verbatim>\<open>await new Promise((resolve) => setTimeout(resolve, 10))\<close>: the timer fires after the
  delay it was given.
\<close>

definition sleep :: "int \<Rightarrow> 'r engine \<Rightarrow> 'r engine" where
  "sleep ms s = s\<lparr>clock := clock s + ms\<rparr>"

function acquireLock_loop ::
  "'r env \<Rightarrow> string \<Rightarrow> string \<Rightarrow> int \<Rightarrow> int \<Rightarrow> int \<Rightarrow> 'r engine \<Rightarrow> (error + bool) \<times> 'r engine" where
  "acquireLock_loop E lockKey lockToken duration timeout startTime s =
     (if clock s - startTime < timeout then
        (case get E lockKey s of
           (Inl e, s1) \<Rightarrow> (Inl e, s1)
         | (Inr existing, s1) \<Rightarrow>
             if \<not> truthy existing then
               (case set_op E lockKey (JStr lockToken) (Some duration) s1 of
                  (Inl e, s2) \<Rightarrow> (Inl e, s2)
                | (Inr acquired, s2) \<Rightarrow>
                    if acquired then (Inr True, s2)
                    else acquireLock_loop E lockKey lockToken duration timeout startTime (sleep 10 s2))
             else acquireLock_loop E lockKey lockToken duration timeout startTime (sleep 10 s1))
      else (Inr False, s))"
  by pat_completeness auto
termination
proof (relation "measure (\<lambda>(E, lockKey, lockToken, duration, timeout, startTime, s).
                    nat (timeout - (clock s - startTime)))", goal_cases)
  case 1
  show ?case by simp
next
  case (2 E lockKey lockToken duration timeout startTime s x xa y xb xc)
  have "clock xa = clock s"
    using 2 clock_get [of E lockKey s] by (metis snd_conv)
  moreover have "clock xc = clock xa"
    using 2 clock_set_op [of E lockKey "JStr lockToken" "Some duration" xa] by (metis snd_conv)
  ultimately show ?case using 2 by (simp add: sleep_def)
next
  case (3 E lockKey lockToken duration timeout startTime s x xa y)
  have "clock xa = clock s"
    using 3 clock_get [of E lockKey s] by (metis snd_conv)
  then show ?case using 3 by (simp add: sleep_def)
qed

declare acquireLock_loop.simps [simp del]

text \<open>
  \<open>lockToken\<close> is the text \<^verbatim>\<open>Math.random().toString(36)\<close> produced for this call; the
  lease \<open>duration\<close> defaults to 30 seconds and the \<open>timeout\<close> to 10000 milliseconds.
\<close>

definition acquireLock ::
  "'r env \<Rightarrow> string \<Rightarrow> string \<Rightarrow> int option \<Rightarrow> int option \<Rightarrow> 'r engine \<Rightarrow> (error + bool) \<times> 'r engine" where
  "acquireLock E lockKey lockToken duration timeout s =
     acquireLock_loop E lockKey lockToken
       (case duration of Some d \<Rightarrow> d | None \<Rightarrow> 30)
       (case timeout of Some t \<Rightarrow> t | None \<Rightarrow> 10000)
       (clock s) s"

definition releaseLock :: "'r env \<Rightarrow> string \<Rightarrow> 'r engine \<Rightarrow> (error + bool) \<times> 'r engine" where
  "releaseLock E lockKey s = delete E lockKey s"

subsection \<open>Engines and environments of the examples\<close>

text \<open>Whether a call is served by the local tier: the remote tier is not active, and no
  connection attempt is pending (the constructor makes the attempt when an endpoint is
  configured).\<close>

definition local_tier :: "'r engine \<Rightarrow> bool" where
  "local_tier s = (\<not> isPrimaryActive s \<and> (connectionReady s \<or> primaryEndpoint (config s) = []))"

text \<open>Whether a call is served by the remote tier.\<close>

definition remote_tier :: "'r engine \<Rightarrow> bool" where
  "remote_tier s = (isPrimaryActive s \<and> connectionReady s)"

text \<open>A run of \<^verbatim>\<open>get\<close> calls, each after some time has passed.\<close>

fun get_calls :: "'r env \<Rightarrow> (int \<times> string) list \<Rightarrow> 'r engine \<Rightarrow> 'r engine" where
  "get_calls E [] s = s"
| "get_calls E ((ms, key) # rest) s = get_calls E rest (snd (get E key (advance ms s)))"

text \<open>A generator that returns its result, and a generator that counts its runs in the
  caller's state.\<close>

definition returning :: "('w \<Rightarrow> jsval \<times> 'w) \<Rightarrow> 'w \<Rightarrow> (error + jsval) \<times> 'w" where
  "returning g w = (case g w of (v, w') \<Rightarrow> (Inr v, w'))"

definition counted ::
  "('w \<Rightarrow> (error + jsval) \<times> 'w) \<Rightarrow> nat \<times> 'w \<Rightarrow> (error + jsval) \<times> nat \<times> 'w" where
  "counted generator nw =
     (case generator (snd nw) of (r, w') \<Rightarrow> (r, Suc (fst nw), w'))"


definition vacant :: "unit env" where
  "vacant =
     \<lparr>json_stringify = (\<lambda>v. Inr ''null''),
      json_parse = (\<lambda>str. Inr JNull),
      redis_new = (\<lambda>url r. (Inr (), r)),
      redis_ping = (\<lambda>r. (Inr (), r)),
      redis_set = (\<lambda>key str r. (Inr (), r)),
      redis_expire = (\<lambda>key ttl r. (Inr (), r)),
      redis_get = (\<lambda>key r. (Inr None, r)),
      redis_exists = (\<lambda>key r. (Inr False, r)),
      redis_del = (\<lambda>key r. (Inr 0, r)),
      redis_incr = (\<lambda>key r. (Inr 1, r)),
      redis_incrby = (\<lambda>key step r. (Inr step, r)),
      redis_ttl = (\<lambda>key r. (Inr (- 2), r)),
      redis_flushdb = (\<lambda>r. (Inr (), r))\<rparr>"

text \<open>An engine on the local tier only, and one whose remote tier is active.\<close>

definition local_engine :: "config \<Rightarrow> int \<Rightarrow> (string \<times> entry) list \<Rightarrow> unit engine" where
  "local_engine c now es =
     \<lparr>config = c, primaryClient = False, memoryCache = es, metrics = initial_metrics,
      primaryActive = False, connectionReady = False, clock = now, remote = ()\<rparr>"

definition remote_engine :: "config \<Rightarrow> int \<Rightarrow> 'r \<Rightarrow> 'r engine" where
  "remote_engine c now r =
     \<lparr>config = c, primaryClient = True, memoryCache = [], metrics = initial_metrics,
      primaryActive = True, connectionReady = True, clock = now, remote = r\<rparr>"

definition default_config :: config where
  "default_config = make_config None None None None"

text \<open>Configurations of the examples: a local tier of one entry, and a remote endpoint.\<close>

definition tiny :: config where
  "tiny = make_config None None None (Some 1)"

definition cache_url :: config where
  "cache_url = make_config (Some ''redis://cache:6379'') None None None"

text \<open>The entry of a lock is present on the local tier, holds a truthy value and does
  not expire before the time \<open>until\<close>.\<close>

definition lock_held :: "int \<Rightarrow> string \<Rightarrow> 'r engine \<Rightarrow> bool" where
  "lock_held until lockKey s =
     (case map_of (memoryCache s) lockKey of
        None \<Rightarrow> False
      | Some en \<Rightarrow>
          truthy (entry_value en)
          \<and> (case expiration en of None \<Rightarrow> True | Some t \<Rightarrow> t = 0 \<or> until \<le> t))"

text \<open>A run of \<^verbatim>\<open>rateLimit\<close> calls for one key, the call of each item made at that time.\<close>

fun rateLimit_calls ::
  "'r env \<Rightarrow> string \<Rightarrow> int \<Rightarrow> int \<Rightarrow> int list \<Rightarrow> 'r engine \<Rightarrow> (error + trafficControlResult) list" where
  "rateLimit_calls E key maxRequests windowSeconds [] s = []"
| "rateLimit_calls E key maxRequests windowSeconds (t # ts) s =
     (case rateLimit E key maxRequests windowSeconds (s\<lparr>clock := t\<rparr>) of
        (r, s') \<Rightarrow> r # rateLimit_calls E key maxRequests windowSeconds ts s')"

text \<open>A backend that counts: its state is the number of increments it has served.\<close>

definition counting :: "nat env" where
  "counting =
     \<lparr>json_stringify = (\<lambda>v. Inr ''null''),
      json_parse = (\<lambda>str. Inr JNull),
      redis_new = (\<lambda>url r. (Inr (), r)),
      redis_ping = (\<lambda>r. (Inr (), r)),
      redis_set = (\<lambda>key str r. (Inr (), r)),
      redis_expire = (\<lambda>key ttl r. (Inr (), r)),
      redis_get = (\<lambda>key r. (Inr None, r)),
      redis_exists = (\<lambda>key r. (Inr False, r)),
      redis_del = (\<lambda>key r. (Inr 0, r)),
      redis_incr = (\<lambda>key r. (Inr (int (Suc r)), Suc r)),
      redis_incrby = (\<lambda>key step r. (Inr (int r + step), nat (int r + step))),
      redis_ttl = (\<lambda>key r. (Inr (- 2), r)),
      redis_flushdb = (\<lambda>r. (Inr (), r))\<rparr>"

text \<open>The counter of a window on the local tier: no entry when the count is 0, otherwise
  an entry that holds the count and does not expire before the time \<open>until\<close>.\<close>

definition counter_holds :: "int \<Rightarrow> int \<Rightarrow> string \<Rightarrow> 'r engine \<Rightarrow> bool" where
  "counter_holds c until key s =
     (if c = 0 then map_of (memoryCache s) key = None
      else (case map_of (memoryCache s) key of
              None \<Rightarrow> False
            | Some en \<Rightarrow>
                entry_value en = JNum c
                \<and> (case expiration en of None \<Rightarrow> True | Some x \<Rightarrow> x = 0 \<or> until \<le> x)))"

text \<open>The result of a call that counted \<open>count\<close> requests in the window \<open>window\<close>.\<close>

definition window_result :: "int \<Rightarrow> int \<Rightarrow> number \<Rightarrow> int \<Rightarrow> error + trafficControlResult" where
  "window_result maxRequests windowSeconds window count =
     Inr \<lparr>permitted = (count \<le> maxRequests),
          quota = max 0 (maxRequests - count),
          windowReset = times (times (plus_one window) windowSeconds) 1000,
          requestCount = count\<rparr>"

text \<open>A configuration whose default lifespan is shorter than a window of a minute.\<close>

definition short_lived :: config where
  "short_lived = make_config None None (Some 1) None"

section \<open>Verification\<close>

subsection \<open>The tiers\<close>

lemma default_config_fields [simp]:
  "primaryEndpoint default_config = []"
  "entryLifespan default_config = 3600"
  "memoryTierLimit default_config = 10000"
  by (simp_all add: default_config_def make_config_def)

lemma local_tier_ensure: "local_tier s \<Longrightarrow> ensure_connection E s = s"
  by (auto simp: local_tier_def ensure_connection_def)

lemma local_tier_not_active: "local_tier s \<Longrightarrow> \<not> isPrimaryActive s"
  by (simp add: local_tier_def)

lemma remote_tier_ensure: "remote_tier s \<Longrightarrow> ensure_connection E s = s"
  by (auto simp: remote_tier_def ensure_connection_def)

lemma remote_tier_active: "remote_tier s \<Longrightarrow> isPrimaryActive s"
  by (simp add: remote_tier_def)

text \<open>The keys of the coordination layer, as the template literals render them.\<close>

lemma key_examples:
  "controlKey ''user'' (Finite 28333) = ''traffic:user:28333''"
  "controlKey ''user'' PosInfinity = ''traffic:user:Infinity''"
  "int_to_string (- 405) = ''-405''"
  "sessionKey ''a1'' = ''user_session:a1''"
  by (simp_all add: controlKey_def sessionKey_def number_to_string_def int_to_string_def
      nat_to_string.simps digit_char_def)

text \<open>An engine that the constructor has made is served by one of the two tiers.\<close>

lemma new_engine_attempted:
  "connectionReady (new_engine E c now r) \<or> primaryEndpoint (config (new_engine E c now r)) = []"
  by (simp add: new_engine_def establishPrimaryConnection_def Let_def split: prod.splits sum.splits)

lemma new_engine_tier: "local_tier (new_engine E c now r) \<or> remote_tier (new_engine E c now r)"
  by (simp add: new_engine_def establishPrimaryConnection_def Let_def local_tier_def
      remote_tier_def isPrimaryActive_def split: prod.splits sum.splits)

lemma local_tier_update [simp]:
  "local_tier (s\<lparr>memoryCache := m\<rparr>) = local_tier s"
  "local_tier (s\<lparr>clock := c\<rparr>) = local_tier s"
  "local_tier (s\<lparr>metrics := m'\<rparr>) = local_tier s"
  "local_tier (count_failed s) = local_tier s"
  "local_tier (count_successful s) = local_tier s"
  "local_tier (count_write s) = local_tier s"
  "local_tier (count_removal s) = local_tier s"
  by (simp_all add: local_tier_def isPrimaryActive_def count_failed_def count_successful_def
      count_write_def count_removal_def)

lemma memoryCache_count [simp]:
  "memoryCache (count_failed s) = memoryCache s"
  "memoryCache (count_successful s) = memoryCache s"
  "memoryCache (count_write s) = memoryCache s"
  "memoryCache (count_removal s) = memoryCache s"
  by (simp_all add: count_failed_def count_successful_def count_write_def count_removal_def)

text \<open>What the methods do when the local tier serves the call.\<close>

lemma get_local:
  assumes "local_tier s"
  shows "get E key s =
     (case map_of (memoryCache s) key of
        None \<Rightarrow> (Inr JNull, count_failed s)
      | Some en \<Rightarrow>
          if is_expired (clock s) en
          then (Inr JNull, count_failed (s\<lparr>memoryCache := AList.delete key (memoryCache s)\<rparr>))
          else (Inr (entry_value en),
                count_successful
                  (s\<lparr>memoryCache :=
                       AList.update key (en\<lparr>lastAccessed := clock s\<rparr>) (memoryCache s)\<rparr>)))"
  using assms
  by (simp add: get_def get_body_def local_tier_ensure local_tier_not_active split: option.splits)



lemma local_tier_get: "local_tier s \<Longrightarrow> local_tier (snd (get E key s))"
  by (simp add: get_local split: option.splits)

lemma config_evict [simp]: "config (evict s) = config s"
  by (simp add: evict_def Let_def)

lemma local_tier_evict [simp]: "local_tier (evict s) = local_tier s"
  by (simp add: evict_def Let_def)

lemma set_local:
  assumes "local_tier s"
  shows "set_op E key v lifespan s =
     (let s2 = (if int (length (memoryCache s)) \<ge> memoryTierLimit (config s) then evict s else s)
      in (Inr True,
          count_write
            (s2\<lparr>memoryCache :=
                 AList.update key
                   \<lparr>entry_value = v,
                    expiration =
                      (case lifespan of
                         Some l \<Rightarrow> Some (clock s + l * 1000)
                       | None \<Rightarrow>
                           if entryLifespan (config s) > 0
                           then Some (clock s + entryLifespan (config s) * 1000) else None),
                    lastAccessed = clock s\<rparr>
                   (memoryCache s2)\<rparr>)))"
  using assms
  by (simp add: set_op_def set_body_def local_tier_ensure local_tier_not_active Let_def clock_evict
      cong: option.case_cong)

lemma set_local_stored:
  assumes "local_tier s"
  shows "map_of (memoryCache (snd (set_op E key v lifespan s))) key =
           Some \<lparr>entry_value = v,
                 expiration =
                   (case lifespan of
                      Some l \<Rightarrow> Some (clock s + l * 1000)
                    | None \<Rightarrow>
                        if entryLifespan (config s) > 0
                        then Some (clock s + entryLifespan (config s) * 1000) else None),
                 lastAccessed = clock s\<rparr>"
  using assms by (simp add: set_local Let_def update_conv')

lemma local_tier_set_op: "local_tier s \<Longrightarrow> local_tier (snd (set_op E key v lifespan s))"
  by (simp add: set_local Let_def)


subsection \<open>Expired entries\<close>







subsection \<open>Metrics\<close>

text \<open>
  C8. After any run of \<^verbatim>\<open>get\<close> calls, on either tier, at any times and from any engine,
  the efficiency that \<^verbatim>\<open>getMetrics\<close> reports is the number of successful reads divided by
  the number of successful and failed reads, and 0 when both counters are 0.
\<close>

theorem getMetrics_efficiency:
  "efficiency (fst (getMetrics (get_calls E calls s))) =
     (if successful (metrics (get_calls E calls s)) + failed (metrics (get_calls E calls s)) = 0
      then 0
      else real (successful (metrics (get_calls E calls s))) /
           real (successful (metrics (get_calls E calls s)) + failed (metrics (get_calls E calls s))))"
  by (simp add: getMetrics_def Let_def)

text \<open>Two hits and a miss on the local tier: the efficiency is two thirds.\<close>

theorem getMetrics_efficiency_witness:
  "efficiency (fst (getMetrics (get_calls vacant [(5, ''k''), (250, ''k''), (10, ''absent'')]
      (local_engine default_config 1000
         [(''k'', \<lparr>entry_value = JNum 5, expiration = None, lastAccessed = 0\<rparr>)])))) = 2 / 3
   \<and> efficiency (fst (getMetrics (get_calls vacant []
      (local_engine default_config 1000 [])))) = 0"
proof -
  let ?en = "\<lparr>entry_value = JNum 5, expiration = None, lastAccessed = 0\<rparr>"
  define s0 where "s0 = advance 5 (local_engine default_config 1000 [(''k'', ?en)])"
  define s1 where "s1 = advance 250 (snd (get vacant ''k'' s0))"
  define s2 where "s2 = advance 10 (snd (get vacant ''k'' s1))"
  define s3 where "s3 = snd (get vacant ''absent'' s2)"
  have l0: "local_tier s0" and x0: "metrics s0 = initial_metrics"
    and m0: "memoryCache s0 = [(''k'', ?en)]"
    by (simp_all add: s0_def local_tier_def local_engine_def isPrimaryActive_def advance_def)
  have g0: "snd (get vacant ''k'' s0) = count_successful (s0\<lparr>memoryCache :=
      AList.update ''k'' (?en\<lparr>lastAccessed := clock s0\<rparr>) (memoryCache s0)\<rparr>)"
    using l0 m0 by (simp add: get_local is_expired_def)
  have l1: "local_tier s1"
    using l0 by (simp add: s1_def advance_def local_tier_get)
  have m1: "memoryCache s1 = [(''k'', ?en\<lparr>lastAccessed := clock s0\<rparr>)]"
    by (simp add: s1_def g0 m0 advance_def)
  have x1: "metrics s1 = initial_metrics\<lparr>successful := 1\<rparr>"
    by (simp add: s1_def g0 x0 count_successful_def initial_metrics_def advance_def)
  have g1: "snd (get vacant ''k'' s1) = count_successful (s1\<lparr>memoryCache :=
      AList.update ''k'' (?en\<lparr>lastAccessed := clock s1\<rparr>) (memoryCache s1)\<rparr>)"
    using l1 m1 by (simp add: get_local is_expired_def)
  have l2: "local_tier s2"
    using l1 by (simp add: s2_def advance_def local_tier_get)
  have m2: "memoryCache s2 = [(''k'', ?en\<lparr>lastAccessed := clock s1\<rparr>)]"
    by (simp add: s2_def g1 m1 advance_def)
  have x2: "metrics s2 = initial_metrics\<lparr>successful := 2\<rparr>"
    by (simp add: s2_def g1 x1 count_successful_def initial_metrics_def advance_def)
  have g2: "s3 = count_failed s2"
    using l2 m2 by (simp add: s3_def get_local)
  have x3: "metrics s3 = initial_metrics\<lparr>successful := 2, failed := 1\<rparr>"
    using x2 by (simp add: g2 count_failed_def initial_metrics_def)
  have run: "get_calls vacant [(5, ''k''), (250, ''k''), (10, ''absent'')]
      (local_engine default_config 1000 [(''k'', ?en)]) = s3"
    by (simp add: s0_def s1_def s2_def s3_def)
  have none: "metrics (get_calls vacant [] (local_engine default_config 1000 [])) = initial_metrics"
    by (simp add: local_engine_def)
  show ?thesis
    using getMetrics_efficiency [of vacant "[(5, ''k''), (250, ''k''), (10, ''absent'')]"
        "local_engine default_config 1000 [(''k'', ?en)]"]
      getMetrics_efficiency [of vacant "[]" "local_engine default_config 1000 []"]
    by (simp only: run x3 none) (simp add: initial_metrics_def)
qed

subsection \<open>Capacity of the local tier\<close>

lemma length_update_absent:
  "map_of al k = None \<Longrightarrow> length (AList.update k v al) = Suc (length al)"
  by (induction al) (auto split: if_splits)

lemma length_update_present:
  "map_of al k = Some w \<Longrightarrow> length (AList.update k v al) = length al"
  by (induction al) (auto split: if_splits)

text \<open>The scan of \<^verbatim>\<open>evict\<close> starts from the current time and looks for a strictly older
  access: when no entry is older than the current time it finds no candidate.\<close>

lemma evict_scan_none_older:
  "list_all (\<lambda>p. oldest \<le> lastAccessed (snd p)) es \<Longrightarrow> evict_scan es (c, oldest) = (c, oldest)"
  by (induction es) auto

lemma evict_none_older:
  "list_all (\<lambda>p. clock s \<le> lastAccessed (snd p)) (memoryCache s) \<Longrightarrow> evict s = s"
  by (simp add: evict_def evict_scan_none_older)

text \<open>
  C1. The claim is that the local store never holds more than \<open>memoryTierLimit\<close> entries
  and that a \<^verbatim>\<open>set\<close> at capacity evicts the least recently accessed entry first. The code
  does not keep this bound: when the store is at capacity and every entry was last accessed
  in the current millisecond, \<^verbatim>\<open>set\<close> of a new key evicts nothing, keeps every entry and
  leaves the store one entry over the limit.
\<close>

theorem set_exceeds_memoryTierLimit:
  assumes "local_tier s"
    and "int (length (memoryCache s)) = memoryTierLimit (config s)"
    and "list_all (\<lambda>p. clock s \<le> lastAccessed (snd p)) (memoryCache s)"
    and "map_of (memoryCache s) key = None"
  shows "fst (set_op E key v lifespan s) = Inr True
       \<and> int (length (memoryCache (snd (set_op E key v lifespan s)))) = memoryTierLimit (config s) + 1
       \<and> (\<forall>k. map_of (memoryCache s) k \<noteq> None
              \<longrightarrow> map_of (memoryCache (snd (set_op E key v lifespan s))) k = map_of (memoryCache s) k)"
proof -
  have "evict s = s"
    using assms(3) by (rule evict_none_older)
  then show ?thesis
    using assms(1,2,4)
    by (auto simp: set_local Let_def length_update_absent update_conv')
qed

text \<open>Two writes in one millisecond into a store of capacity 1 leave two entries.\<close>

theorem set_exceeds_memoryTierLimit_witness:
  "memoryCache (snd (set_op vacant ''a'' (JNum 1) None (local_engine tiny 1000 []))) =
      [(''a'', \<lparr>entry_value = JNum 1, expiration = Some 3601000, lastAccessed = 1000\<rparr>)]
   \<and> memoryTierLimit tiny = 1
   \<and> length (memoryCache (snd (set_op vacant ''b'' (JNum 2) None
        (snd (set_op vacant ''a'' (JNum 1) None (local_engine tiny 1000 [])))))) = 2"
proof -
  let ?s0 = "local_engine tiny 1000 []"
  let ?s1 = "snd (set_op vacant ''a'' (JNum 1) None ?s0)"
  have l0: "local_tier ?s0"
    by (simp add: local_tier_def local_engine_def isPrimaryActive_def tiny_def make_config_def)
  have m1: "memoryCache ?s1 =
      [(''a'', \<lparr>entry_value = JNum 1, expiration = Some 3601000, lastAccessed = 1000\<rparr>)]"
    using l0 by (simp add: set_local Let_def evict_def local_engine_def tiny_def make_config_def)
  have c1: "clock ?s1 = 1000" "config ?s1 = tiny" "local_tier ?s1"
    using l0 by (simp_all add: set_local Let_def evict_def local_engine_def tiny_def make_config_def
        count_write_def local_tier_def isPrimaryActive_def)
  have a: "int (length (memoryCache ?s1)) = memoryTierLimit (config ?s1)"
    using m1 c1 by (simp add: tiny_def make_config_def)
  have b: "list_all (\<lambda>p. clock ?s1 \<le> lastAccessed (snd p)) (memoryCache ?s1)"
    using m1 c1 by simp
  have c: "map_of (memoryCache ?s1) ''b'' = None"
    using m1 by simp
  show ?thesis
    using m1 c1 set_exceeds_memoryTierLimit [OF c1(3) a b c, of vacant "JNum 2" None]
    by (simp add: tiny_def make_config_def)
qed

text \<open>
  For comparison, what the code achieves when time has moved on since the last access of
  every entry and no key is the empty text: \<^verbatim>\<open>evict\<close> removes one entry, none was accessed
  earlier than it, and \<^verbatim>\<open>set\<close> keeps the store within a positive limit.
\<close>

lemma evict_scan_result:
  "evict_scan es (c, t) = (c', t') \<Longrightarrow>
     t' \<le> t \<and> list_all (\<lambda>p. t' \<le> lastAccessed (snd p)) es
     \<and> ((c', t') = (c, t) \<or> (t' < t \<and> map_of es c' \<noteq> None
          \<and> (\<exists>en. (c', en) \<in> set es \<and> lastAccessed en = t')))"
proof (induction es arbitrary: c t)
  case Nil
  then show ?case by simp
next
  case (Cons p es)
  obtain key en where p: "p = (key, en)" by (cases p)
  show ?case
  proof (cases "lastAccessed en < t")
    case True
    then have "evict_scan es (key, lastAccessed en) = (c', t')"
      using Cons.prems p by simp
    from Cons.IH [OF this] True p show ?thesis
      by (auto simp: list_all_iff weak_map_of_SomeI split: if_splits)
  next
    case False
    then have "evict_scan es (c, t) = (c', t')"
      using Cons.prems p by simp
    from Cons.IH [OF this] False p show ?thesis
      by (auto simp: list_all_iff)
  qed
qed

lemma length_delete_present:
  "distinct (map fst al) \<Longrightarrow> map_of al k \<noteq> None \<Longrightarrow> Suc (length (AList.delete k al)) = length al"
proof (induction al)
  case Nil
  then show ?case by simp
next
  case (Cons p al)
  show ?case
  proof (cases "fst p = k")
    case True
    then have "k \<notin> fst ` set al" using Cons.prems(1) by auto
    then show ?thesis using True by simp
  next
    case False
    then show ?thesis using Cons by auto
  qed
qed

lemma evict_least_recent:
  assumes "distinct (map fst (memoryCache s))"
    and "map_of (memoryCache s) [] = None"
    and "\<not> list_all (\<lambda>p. clock s \<le> lastAccessed (snd p)) (memoryCache s)"
  shows "\<exists>key en. (key, en) \<in> set (memoryCache s)
           \<and> list_all (\<lambda>p. lastAccessed en \<le> lastAccessed (snd p)) (memoryCache s)
           \<and> evict s = s\<lparr>memoryCache := AList.delete key (memoryCache s)\<rparr>
           \<and> Suc (length (memoryCache (evict s))) = length (memoryCache s)"
proof -
  obtain c' t' where sc: "evict_scan (memoryCache s) ([], clock s) = (c', t')"
    by (cases "evict_scan (memoryCache s) ([], clock s)")
  note res = evict_scan_result [OF sc]
  have "(c', t') \<noteq> ([], clock s)"
  proof
    assume "(c', t') = ([], clock s)"
    then have "list_all (\<lambda>p. clock s \<le> lastAccessed (snd p)) (memoryCache s)"
      using res by simp
    then show False using assms(3) by simp
  qed
  then obtain en where en: "t' < clock s" "map_of (memoryCache s) c' \<noteq> None"
      "(c', en) \<in> set (memoryCache s)" "lastAccessed en = t'"
    using res by auto
  have ne: "c' \<noteq> []" using en(2) assms(2) by auto
  have ev: "evict s = s\<lparr>memoryCache := AList.delete c' (memoryCache s)\<rparr>"
    using sc ne by (simp add: evict_def)
  have "Suc (length (memoryCache (evict s))) = length (memoryCache s)"
    using length_delete_present [OF assms(1) en(2)] by (simp add: ev)
  then show ?thesis
    using en res ev by auto
qed

lemma length_update_le: "length (AList.update k v al) \<le> Suc (length al)"
  by (cases "map_of al k") (simp_all add: length_update_absent length_update_present)

lemma set_local_memoryCache:
  assumes "local_tier s"
  shows "\<exists>en. memoryCache (snd (set_op E key v lifespan s)) =
           AList.update key en
             (memoryCache (if int (length (memoryCache s)) \<ge> memoryTierLimit (config s)
                           then evict s else s))"
  using assms by (auto simp: set_local Let_def)

lemma set_within_memoryTierLimit:
  assumes "local_tier s"
    and "distinct (map fst (memoryCache s))"
    and "map_of (memoryCache s) [] = None"
    and "list_all (\<lambda>p. lastAccessed (snd p) < clock s) (memoryCache s)"
    and "0 < memoryTierLimit (config s)"
    and "int (length (memoryCache s)) \<le> memoryTierLimit (config s)"
  shows "int (length (memoryCache (snd (set_op E key v lifespan s)))) \<le> memoryTierLimit (config s)"
proof (cases "int (length (memoryCache s)) \<ge> memoryTierLimit (config s)")
  case False
  obtain en where "memoryCache (snd (set_op E key v lifespan s)) = AList.update key en (memoryCache s)"
    using set_local_memoryCache [OF assms(1), of E key v lifespan] False by auto
  then have "length (memoryCache (snd (set_op E key v lifespan s))) \<le> Suc (length (memoryCache s))"
    by (simp add: length_update_le)
  then show ?thesis using False by linarith
next
  case True
  then have "memoryCache s \<noteq> []" using assms(5) by auto
  then have "\<not> list_all (\<lambda>p. clock s \<le> lastAccessed (snd p)) (memoryCache s)"
    using assms(4) by (cases "memoryCache s") auto
  from evict_least_recent [OF assms(2,3) this]
  have len: "Suc (length (memoryCache (evict s))) = length (memoryCache s)" by blast
  obtain en where "memoryCache (snd (set_op E key v lifespan s)) =
      AList.update key en (memoryCache (evict s))"
    using set_local_memoryCache [OF assms(1), of E key v lifespan] True by auto
  then have "length (memoryCache (snd (set_op E key v lifespan s))) \<le> Suc (length (memoryCache (evict s)))"
    by (simp add: length_update_le)
  then show ?thesis using len assms(6) by linarith
qed

subsection \<open>Removals\<close>

lemma delete_local:
  assumes "local_tier s"
  shows "delete E key s =
     (Inr (map_of (memoryCache s) key \<noteq> None),
      if map_of (memoryCache s) key \<noteq> None
      then count_removal (s\<lparr>memoryCache := AList.delete key (memoryCache s)\<rparr>)
      else s\<lparr>memoryCache := AList.delete key (memoryCache s)\<rparr>)"
  using assms
  by (simp add: delete_def delete_body_def local_tier_ensure local_tier_not_active Let_def)

text \<open>On the local tier the counter of removals moves exactly when \<^verbatim>\<open>delete\<close> returns true.\<close>

lemma delete_local_removals:
  assumes "local_tier s"
  shows "removals (metrics (snd (delete E key s))) =
           removals (metrics s) + (if fst (delete E key s) = Inr True then 1 else 0)
       \<and> (fst (delete E key s) = Inr True \<or> fst (delete E key s) = Inr False)"
  using assms by (simp add: delete_local count_removal_def)

lemma delete_remote:
  assumes "remote_tier s"
  shows "delete E key s =
     (case redis_del E key (remote s) of
        (Inl e, r1) \<Rightarrow> (Inr False, s\<lparr>remote := r1\<rparr>)
      | (Inr n, r1) \<Rightarrow> (Inr (n > 0), count_removal (s\<lparr>remote := r1\<rparr>)))"
  using assms
  by (simp add: delete_def delete_body_def remote_tier_ensure remote_tier_active
      split: prod.splits sum.splits)

text \<open>
  C7. The claim is that on both tiers \<^verbatim>\<open>delete\<close> increments \<open>removals\<close> exactly when it
  returns true. On the remote tier the code increments the counter whenever the remote
  call returns: when the backend reports that it removed no key, \<^verbatim>\<open>delete\<close> returns false
  and \<open>removals\<close> is incremented all the same.
\<close>

theorem delete_remote_counts_absent_key:
  assumes "remote_tier s" and "redis_del E key (remote s) = (Inr n, r1)" and "n \<le> 0"
  shows "fst (delete E key s) = Inr False
       \<and> removals (metrics (snd (delete E key s))) = removals (metrics s) + 1"
  using assms by (simp add: delete_remote count_removal_def)

theorem delete_remote_counts_absent_key_witness:
  "remote_tier (remote_engine cache_url 1000 ())
   \<and> redis_del vacant ''missing'' () = (Inr 0, ())
   \<and> fst (delete vacant ''missing'' (remote_engine cache_url 1000 ())) = Inr False
   \<and> removals (metrics (remote_engine cache_url 1000 ())) = 0
   \<and> removals (metrics (snd (delete vacant ''missing'' (remote_engine cache_url 1000 ())))) = 1"
proof -
  have a: "remote_tier (remote_engine cache_url 1000 ())"
    by (simp add: remote_tier_def remote_engine_def isPrimaryActive_def)
  have b: "redis_del vacant ''missing'' (remote (remote_engine cache_url 1000 ())) = (Inr 0, ())"
    by (simp add: vacant_def)
  show ?thesis
    using a b delete_remote_counts_absent_key [OF a b]
    by (simp add: remote_engine_def initial_metrics_def vacant_def)
qed

subsection \<open>Lazy loading\<close>

lemma get_returns: "\<exists>v. fst (get E key s) = Inr v"
  by (auto simp: get_def split: prod.splits sum.splits)

lemma set_op_returns: "\<exists>b. fst (set_op E key v lifespan s) = Inr b"
  by (auto simp: set_op_def split: prod.splits sum.splits)

lemma config_count [simp]:
  "config (count_failed s) = config s"
  "config (count_successful s) = config s"
  "config (count_write s) = config s"
  "config (count_removal s) = config s"
  by (simp_all add: count_failed_def count_successful_def count_write_def count_removal_def)

lemma config_set_local: "local_tier s \<Longrightarrow> config (snd (set_op E key v lifespan s)) = config s"
  by (simp add: set_local Let_def)


lemma getOrSet_miss:
  assumes "fst (get E key s) = Inr JNull"
  shows "getOrSet E key (counted (returning g)) lifespan (s, (n, w)) =
           (Inr (fst (g w)),
            snd (set_op E key (fst (g w)) lifespan (snd (get E key s))),
            (Suc n, snd (g w)))"
proof -
  obtain s1 where g1: "get E key s = (Inr JNull, s1)"
    using assms by (cases "get E key s") auto
  obtain fresh w1 where gw: "g w = (fresh, w1)"
    by (cases "g w")
  obtain b s2 where s2: "set_op E key fresh lifespan s1 = (Inr b, s2)"
    using set_op_returns [of E key fresh lifespan s1]
    by (cases "set_op E key fresh lifespan s1") auto
  show ?thesis
    using g1 gw s2 by (simp add: getOrSet_def counted_def returning_def)
qed

lemma getOrSet_hit:
  assumes "fst (get E key s) = Inr v" and "v \<noteq> JNull"
  shows "getOrSet E key (counted (returning g)) lifespan (s, (n, w)) = (Inr v, snd (get E key s), (n, w))"
proof -
  obtain s1 where g1: "get E key s = (Inr v, s1)"
    using assms by (cases "get E key s") auto
  show ?thesis
    using g1 assms(2) by (simp add: getOrSet_def)
qed

text \<open>
  C6, as amended. \<^verbatim>\<open>getOrSet\<close> decides by the value \<^verbatim>\<open>get\<close> returns. When \<^verbatim>\<open>get\<close> returns
  \<^verbatim>\<open>null\<close>, the generator runs exactly once, its result is written with \<^verbatim>\<open>set\<close> and
  returned; when \<^verbatim>\<open>get\<close> returns a value other than \<^verbatim>\<open>null\<close>, that value is returned and the
  generator does not run. On the local tier an absent key is such a miss, and the result is
  in the store afterwards; a key that holds an unexpired value other than \<^verbatim>\<open>null\<close> is such
  a hit. The runs of the generator are counted in the caller's state.
\<close>

theorem getOrSet_runs_generator:
  "(fst (get E key s) = Inr JNull \<longrightarrow>
      getOrSet E key (counted (returning g)) lifespan (s, (n, w)) =
        (Inr (fst (g w)),
         snd (set_op E key (fst (g w)) lifespan (snd (get E key s))),
         (Suc n, snd (g w))))
   \<and> (fst (get E key s) = Inr v \<and> v \<noteq> JNull \<longrightarrow>
      getOrSet E key (counted (returning g)) lifespan (s, (n, w)) = (Inr v, snd (get E key s), (n, w)))
   \<and> (local_tier s \<and> map_of (memoryCache s) key = None \<longrightarrow>
      fst (get E key s) = Inr JNull
      \<and> (\<exists>en. map_of (memoryCache (fst (snd (getOrSet E key (counted (returning g)) lifespan (s, (n, w)))))) key
                 = Some en \<and> entry_value en = fst (g w)))
   \<and> (local_tier s \<and> map_of (memoryCache s) key = Some en0 \<and> \<not> is_expired (clock s) en0
        \<and> entry_value en0 \<noteq> JNull \<longrightarrow>
      fst (get E key s) = Inr (entry_value en0)
      \<and> getOrSet E key (counted (returning g)) lifespan (s, (n, w)) =
           (Inr (entry_value en0), snd (get E key s), (n, w)))"
proof (intro conjI impI)
  assume "fst (get E key s) = Inr JNull"
  then show "getOrSet E key (counted (returning g)) lifespan (s, (n, w)) =
        (Inr (fst (g w)),
         snd (set_op E key (fst (g w)) lifespan (snd (get E key s))),
         (Suc n, snd (g w)))"
    by (rule getOrSet_miss)
next
  assume "fst (get E key s) = Inr v \<and> v \<noteq> JNull"
  then show "getOrSet E key (counted (returning g)) lifespan (s, (n, w)) = (Inr v, snd (get E key s), (n, w))"
    by (simp add: getOrSet_hit)
next
  assume a: "local_tier s \<and> map_of (memoryCache s) key = None"
  then show m: "fst (get E key s) = Inr JNull"
    by (simp add: get_local)
  have "local_tier (snd (get E key s))"
    using a by (simp add: local_tier_get)
  then show "\<exists>en. map_of (memoryCache (fst (snd (getOrSet E key (counted (returning g)) lifespan (s, (n, w)))))) key
                 = Some en \<and> entry_value en = fst (g w)"
    by (simp add: getOrSet_miss [OF m] set_local_stored)
next
  assume a: "local_tier s \<and> map_of (memoryCache s) key = Some en0 \<and> \<not> is_expired (clock s) en0
        \<and> entry_value en0 \<noteq> JNull"
  then show h: "fst (get E key s) = Inr (entry_value en0)"
    by (simp add: get_local)
  show "getOrSet E key (counted (returning g)) lifespan (s, (n, w)) =
           (Inr (entry_value en0), snd (get E key s), (n, w))"
    using a h by (simp add: getOrSet_hit)
qed

text \<open>
  The claim as stated fails for a key that holds the value \<^verbatim>\<open>null\<close>: the key is populated
  and not expired, and the generator runs all the same, also after \<^verbatim>\<open>set('k', null)\<close>.
\<close>

theorem getOrSet_null_counterexample:
  "map_of (memoryCache (local_engine default_config 1000
       [(''k'', \<lparr>entry_value = JNull, expiration = None, lastAccessed = 0\<rparr>)])) ''k''
     = Some \<lparr>entry_value = JNull, expiration = None, lastAccessed = 0\<rparr>
   \<and> \<not> is_expired 1000 \<lparr>entry_value = JNull, expiration = None, lastAccessed = 0\<rparr>
   \<and> fst (snd (snd (getOrSet vacant ''k'' (counted (returning (\<lambda>w. (JStr ''fresh'', w)))) None
        (local_engine default_config 1000
           [(''k'', \<lparr>entry_value = JNull, expiration = None, lastAccessed = 0\<rparr>)], (0, ()))))) = 1
   \<and> fst (getOrSet vacant ''k'' (counted (returning (\<lambda>w. (JStr ''fresh'', w)))) None
        (local_engine default_config 1000
           [(''k'', \<lparr>entry_value = JNull, expiration = None, lastAccessed = 0\<rparr>)], (0, ()))) = Inr (JStr ''fresh'')
   \<and> map_of (memoryCache (snd (set_op vacant ''k'' JNull None (local_engine default_config 1000 []))))
        ''k''
     = Some \<lparr>entry_value = JNull, expiration = Some 3601000, lastAccessed = 1000\<rparr>
   \<and> fst (snd (snd (getOrSet vacant ''k'' (counted (returning (\<lambda>w. (JStr ''fresh'', w)))) None
        (snd (set_op vacant ''k'' JNull None (local_engine default_config 1000 [])), (0, ()))))) = 1"
proof -
  let ?en = "\<lparr>entry_value = JNull, expiration = None, lastAccessed = 0\<rparr>"
  let ?s = "local_engine default_config 1000 [(''k'', ?en)]"
  let ?stored = "\<lparr>entry_value = JNull, expiration = Some 3601000, lastAccessed = 1000\<rparr>"
  define written where
    "written = snd (set_op vacant ''k'' JNull None (local_engine default_config 1000 []))"
  have l: "local_tier ?s"
    by (simp add: local_tier_def local_engine_def isPrimaryActive_def)
  have m: "map_of (memoryCache ?s) ''k'' = Some ?en"
    by (simp add: local_engine_def)
  have e: "\<not> is_expired (clock ?s) ?en"
    by (simp add: is_expired_def)
  have g: "fst (get vacant ''k'' ?s) = Inr JNull"
    using l m e by (simp add: get_local)
  have l0: "local_tier (local_engine default_config 1000 [])"
    by (simp add: local_tier_def local_engine_def isPrimaryActive_def)
  have lw: "local_tier written" and kw: "clock written = 1000"
    using l0 by (simp_all add: written_def local_tier_set_op clock_set_op local_engine_def)
  have mw: "map_of (memoryCache written) ''k'' = Some ?stored"
    using set_local_stored [OF l0, of vacant "''k''" JNull None]
    by (simp add: written_def local_engine_def)
  have gw: "fst (get vacant ''k'' written) = Inr JNull"
    using lw mw kw by (simp add: get_local is_expired_def)
  have first: "fst (snd (snd (getOrSet vacant ''k''
      (counted (returning (\<lambda>w. (JStr ''fresh'', w)))) None (?s, (0, ()))))) = 1"
    "fst (getOrSet vacant ''k''
      (counted (returning (\<lambda>w. (JStr ''fresh'', w)))) None (?s, (0, ()))) = Inr (JStr ''fresh'')"
    by (simp_all add: getOrSet_miss [OF g])
  have second: "fst (snd (snd (getOrSet vacant ''k''
      (counted (returning (\<lambda>w. (JStr ''fresh'', w)))) None (written, (0, ()))))) = 1"
    by (simp add: getOrSet_miss [OF gw])
  show ?thesis
    using m e first second mw by (simp add: written_def is_expired_def)
qed

theorem getOrSet_runs_generator_witness:
  "local_tier (local_engine default_config 1000 [])
   \<and> getOrSet vacant ''k'' (counted (returning (\<lambda>w. (JStr ''fresh'', w)))) None
        (local_engine default_config 1000 [], (0, ()))
     = (Inr (JStr ''fresh''),
        snd (set_op vacant ''k'' (JStr ''fresh'') None
               (snd (get vacant ''k'' (local_engine default_config 1000 [])))),
        (Suc 0, ()))
   \<and> getOrSet vacant ''k'' (counted (returning (\<lambda>w. (JStr ''fresh'', w)))) None
        (local_engine default_config 1000
           [(''k'', \<lparr>entry_value = JStr ''old'', expiration = Some 2000, lastAccessed = 0\<rparr>)], (0, ()))
     = (Inr (JStr ''old''),
        snd (get vacant ''k'' (local_engine default_config 1000
           [(''k'', \<lparr>entry_value = JStr ''old'', expiration = Some 2000, lastAccessed = 0\<rparr>)])),
        (0, ()))"
proof -
  let ?s = "local_engine default_config 1000 []"
  let ?en = "\<lparr>entry_value = JStr ''old'', expiration = Some 2000, lastAccessed = 0\<rparr>"
  let ?t = "local_engine default_config 1000 [(''k'', ?en)]"
  let ?g = "\<lambda>w::unit. (JStr ''fresh'', w)"
  have l: "local_tier ?s" "local_tier ?t"
    by (simp_all add: local_tier_def local_engine_def isPrimaryActive_def)
  have m: "map_of (memoryCache ?s) ''k'' = None"
    by (simp add: local_engine_def)
  have h: "map_of (memoryCache ?t) ''k'' = Some ?en" "\<not> is_expired (clock ?t) ?en"
      "entry_value ?en \<noteq> JNull"
    by (simp_all add: local_engine_def is_expired_def)
  have g1: "fst (get vacant ''k'' ?s) = Inr JNull"
    using l m by (simp add: get_local)
  show ?thesis
    using l(1) g1 h
      getOrSet_runs_generator [of vacant "''k''" ?s ?g None 0 "()" "JNull" ?en]
      getOrSet_runs_generator [of vacant "''k''" ?t ?g None 0 "()" "JStr ''old''" ?en]
    by (simp add: l m)
qed

subsection \<open>Sessions\<close>




subsection \<open>The lock\<close>

lemma acquireLock_loop_first:
  assumes "clock s - startTime < timeout"
    and "fst (get E lockKey s) = Inr existing" and "\<not> truthy existing"
    and "fst (set_op E lockKey (JStr lockToken) (Some duration) (snd (get E lockKey s))) = Inr True"
  shows "acquireLock_loop E lockKey lockToken duration timeout startTime s =
           (Inr True, snd (set_op E lockKey (JStr lockToken) (Some duration) (snd (get E lockKey s))))"
proof -
  obtain s1 where g1: "get E lockKey s = (Inr existing, s1)"
    using assms(2) by (cases "get E lockKey s") auto
  obtain s2 where s2: "set_op E lockKey (JStr lockToken) (Some duration) s1 = (Inr True, s2)"
    using assms(4) g1 by (cases "set_op E lockKey (JStr lockToken) (Some duration) s1") auto
  show ?thesis
    using assms(1,3) g1 s2 by (subst acquireLock_loop.simps) simp
qed

lemma acquireLock_free_local:
  assumes "local_tier s" and "map_of (memoryCache s) lockKey = None" and "0 < timeout"
  shows "acquireLock E lockKey lockToken (Some duration) (Some timeout) s =
           (Inr True, snd (set_op E lockKey (JStr lockToken) (Some duration) (snd (get E lockKey s))))"
proof -
  have g: "fst (get E lockKey s) = Inr JNull"
    using assms by (simp add: get_local)
  have l1: "local_tier (snd (get E lockKey s))"
    using assms(1) by (rule local_tier_get)
  have w: "fst (set_op E lockKey (JStr lockToken) (Some duration) (snd (get E lockKey s))) = Inr True"
    using l1 by (simp add: set_local Let_def)
  have "clock s - clock s < timeout"
    using assms(3) by simp
  then show ?thesis
    using g w by (simp add: acquireLock_def acquireLock_loop_first)
qed

lemma lock_held_step:
  assumes "local_tier s" and "lock_held until lockKey s" and "clock s < until"
  shows "\<exists>v. fst (get E lockKey s) = Inr v \<and> truthy v"
    and "local_tier (sleep 10 (snd (get E lockKey s)))"
    and "lock_held until lockKey (sleep 10 (snd (get E lockKey s)))"
proof -
  obtain en where en: "map_of (memoryCache s) lockKey = Some en" "truthy (entry_value en)"
      "case expiration en of None \<Rightarrow> True | Some t \<Rightarrow> t = 0 \<or> until \<le> t"
    using assms(2) by (auto simp: lock_held_def split: option.splits)
  have live: "\<not> is_expired (clock s) en"
    using en(3) assms(3) by (auto simp: is_expired_def split: option.splits)
  show "\<exists>v. fst (get E lockKey s) = Inr v \<and> truthy v"
    using assms(1) en live by (simp add: get_local)
  show "local_tier (sleep 10 (snd (get E lockKey s)))"
    using assms(1) by (simp add: sleep_def local_tier_get)
  show "lock_held until lockKey (sleep 10 (snd (get E lockKey s)))"
    using assms(1) en live by (simp add: get_local sleep_def lock_held_def update_conv')
qed

lemma acquireLock_loop_held:
  "local_tier s \<Longrightarrow> lock_held (startTime + timeout) lockKey s \<Longrightarrow>
   fst (acquireLock_loop E lockKey lockToken duration timeout startTime s) = Inr False"
proof (induction E lockKey lockToken duration timeout startTime s rule: acquireLock_loop.induct)
  case (1 E lockKey lockToken duration timeout startTime s)
  show ?case
  proof (cases "clock s - startTime < timeout")
    case False
    then show ?thesis by (subst acquireLock_loop.simps) simp
  next
    case True
    then have before: "clock s < startTime + timeout" by simp
    obtain v where v: "fst (get E lockKey s) = Inr v" "truthy v"
      using lock_held_step(1) [OF "1.prems" before] by blast
    obtain s1 where g1: "get E lockKey s = (Inr v, s1)"
      using v(1) by (cases "get E lockKey s") auto
    have s1: "s1 = snd (get E lockKey s)" using g1 by simp
    have l: "local_tier (sleep 10 s1)" "lock_held (startTime + timeout) lockKey (sleep 10 s1)"
      using lock_held_step(2,3) [OF "1.prems" before] s1 by simp_all
    have "fst (acquireLock_loop E lockKey lockToken duration timeout startTime (sleep 10 s1)) = Inr False"
      using "1.IH"(2) [OF True g1 [symmetric] refl _ l] v(2) by simp
    then show ?thesis
      using True g1 v(2) by (subst acquireLock_loop.simps) simp
  qed
qed

text \<open>
  C5, as amended. \<^verbatim>\<open>acquireLock\<close> reads and writes the key \<open>lockKey\<close> as it is given: when
  the first \<^verbatim>\<open>get\<close> finds no truthy value and the \<^verbatim>\<open>set\<close> succeeds, the lock is acquired by
  \<^verbatim>\<open>set(lockKey, lockToken, duration)\<close>. On the local tier a free key is acquired and its
  entry holds the token and expires \<open>duration\<close> seconds later; while an entry with a truthy
  value is present and outlasts the timeout, \<^verbatim>\<open>acquireLock\<close> returns false.
  \<^verbatim>\<open>releaseLock\<close> is \<^verbatim>\<open>delete\<close> of the same key and takes no token: on the local tier it
  removes whatever entry the key holds.
\<close>

theorem lock_entry_and_release:
  "(0 < timeout \<and> fst (get E lockKey s) = Inr existing \<and> \<not> truthy existing
      \<and> fst (set_op E lockKey (JStr lockToken) (Some duration) (snd (get E lockKey s))) = Inr True \<longrightarrow>
      acquireLock E lockKey lockToken (Some duration) (Some timeout) s =
        (Inr True, snd (set_op E lockKey (JStr lockToken) (Some duration) (snd (get E lockKey s)))))
   \<and> (local_tier s \<and> map_of (memoryCache s) lockKey = None \<and> 0 < timeout \<longrightarrow>
      fst (acquireLock E lockKey lockToken (Some duration) (Some timeout) s) = Inr True
      \<and> map_of (memoryCache (snd (acquireLock E lockKey lockToken (Some duration) (Some timeout) s)))
          lockKey =
          Some \<lparr>entry_value = JStr lockToken, expiration = Some (clock s + duration * 1000),
                lastAccessed = clock s\<rparr>)
   \<and> (local_tier s \<and> lock_held (clock s + timeout) lockKey s \<longrightarrow>
      fst (acquireLock E lockKey lockToken (Some duration) (Some timeout) s) = Inr False)
   \<and> releaseLock E lockKey s = delete E lockKey s
   \<and> (local_tier s \<and> map_of (memoryCache s) lockKey = Some en \<longrightarrow>
      fst (releaseLock E lockKey s) = Inr True
      \<and> map_of (memoryCache (snd (releaseLock E lockKey s))) lockKey = None)"
proof (intro conjI impI)
  assume a: "0 < timeout \<and> fst (get E lockKey s) = Inr existing \<and> \<not> truthy existing
      \<and> fst (set_op E lockKey (JStr lockToken) (Some duration) (snd (get E lockKey s))) = Inr True"
  then have "clock s - clock s < timeout" by simp
  then show "acquireLock E lockKey lockToken (Some duration) (Some timeout) s =
        (Inr True, snd (set_op E lockKey (JStr lockToken) (Some duration) (snd (get E lockKey s))))"
    using a by (simp add: acquireLock_def acquireLock_loop_first)
next
  assume a: "local_tier s \<and> map_of (memoryCache s) lockKey = None \<and> 0 < timeout"
  then have eq: "acquireLock E lockKey lockToken (Some duration) (Some timeout) s =
      (Inr True, snd (set_op E lockKey (JStr lockToken) (Some duration) (snd (get E lockKey s))))"
    by (simp add: acquireLock_free_local)
  show "fst (acquireLock E lockKey lockToken (Some duration) (Some timeout) s) = Inr True"
    by (simp add: eq)
  have l1: "local_tier (snd (get E lockKey s))"
    using a by (simp add: local_tier_get)
  show "map_of (memoryCache (snd (acquireLock E lockKey lockToken (Some duration) (Some timeout) s)))
          lockKey =
          Some \<lparr>entry_value = JStr lockToken, expiration = Some (clock s + duration * 1000),
                lastAccessed = clock s\<rparr>"
    using l1 by (simp add: eq set_local_stored clock_get)
next
  assume "local_tier s \<and> lock_held (clock s + timeout) lockKey s"
  then show "fst (acquireLock E lockKey lockToken (Some duration) (Some timeout) s) = Inr False"
    by (simp add: acquireLock_def acquireLock_loop_held)
next
  show "releaseLock E lockKey s = delete E lockKey s"
    by (simp add: releaseLock_def)
next
  assume a: "local_tier s \<and> map_of (memoryCache s) lockKey = Some en"
  then show "fst (releaseLock E lockKey s) = Inr True"
    by (simp add: releaseLock_def delete_local)
  show "map_of (memoryCache (snd (releaseLock E lockKey s))) lockKey = None"
    using a by (simp add: releaseLock_def delete_local delete_conv')
qed


text \<open>
  The claim as stated names the key \<^verbatim>\<open>lock:<lockKey>\<close>. After acquiring the lock \<^verbatim>\<open>x\<close> the
  store holds the token under \<^verbatim>\<open>x\<close> and nothing under \<^verbatim>\<open>lock:x\<close>.
\<close>

lemma acquireLock_example:
  "acquireLock vacant ''x'' ''0.4fzyo82m'' (Some 5) (Some 200) (local_engine default_config 1000 []) =
     (Inr True,
      \<lparr>config = default_config, primaryClient = False,
       memoryCache =
         [(''x'', \<lparr>entry_value = JStr ''0.4fzyo82m'', expiration = Some 6000, lastAccessed = 1000\<rparr>)],
       metrics = initial_metrics\<lparr>failed := 1, writes := 1\<rparr>,
       primaryActive = False, connectionReady = False, clock = 1000, remote = ()\<rparr>)"
proof -
  let ?s = "local_engine default_config 1000 []"
  have l: "local_tier ?s"
    by (simp add: local_tier_def local_engine_def isPrimaryActive_def)
  have m: "map_of (memoryCache ?s) ''x'' = None"
    by (simp add: local_engine_def)
  have g: "get vacant ''x'' ?s = (Inr JNull, count_failed ?s)"
    using l m by (simp add: get_local)
  have l1: "local_tier (count_failed ?s)"
    using l by simp
  show ?thesis
    using l1 by (simp add: acquireLock_free_local [OF l m] g set_local Let_def)
      (simp add: local_engine_def count_failed_def count_write_def initial_metrics_def)
qed

theorem lock_key_counterexample:
  "fst (acquireLock vacant ''x'' ''0.4fzyo82m'' (Some 5) (Some 200)
          (local_engine default_config 1000 [])) = Inr True
   \<and> map_of (memoryCache (snd (acquireLock vacant ''x'' ''0.4fzyo82m'' (Some 5) (Some 200)
          (local_engine default_config 1000 [])))) (''lock:'' @ ''x'') = None
   \<and> memoryCache (snd (acquireLock vacant ''x'' ''0.4fzyo82m'' (Some 5) (Some 200)
          (local_engine default_config 1000 []))) =
       [(''x'', \<lparr>entry_value = JStr ''0.4fzyo82m'', expiration = Some 6000, lastAccessed = 1000\<rparr>)]"
  by (simp add: acquireLock_example)

theorem lock_entry_and_release_witness:
  "local_tier (local_engine default_config 1000 [])
   \<and> fst (acquireLock vacant ''x'' ''0.4fzyo82m'' (Some 5) (Some 200)
          (local_engine default_config 1000 [])) = Inr True
   \<and> lock_held (1000 + 200) ''x'' (snd (acquireLock vacant ''x'' ''0.4fzyo82m'' (Some 5) (Some 200)
          (local_engine default_config 1000 [])))
   \<and> fst (acquireLock vacant ''x'' ''0.ck81qzl9'' (Some 5) (Some 200)
          (snd (acquireLock vacant ''x'' ''0.4fzyo82m'' (Some 5) (Some 200)
             (local_engine default_config 1000 [])))) = Inr False
   \<and> fst (releaseLock vacant ''x''
          (snd (acquireLock vacant ''x'' ''0.4fzyo82m'' (Some 5) (Some 200)
             (local_engine default_config 1000 [])))) = Inr True
   \<and> map_of (memoryCache (snd (releaseLock vacant ''x''
          (snd (acquireLock vacant ''x'' ''0.4fzyo82m'' (Some 5) (Some 200)
             (local_engine default_config 1000 [])))))) ''x'' = None"
proof -
  let ?s0 = "local_engine default_config 1000 []"
  let ?en = "\<lparr>entry_value = JStr ''0.4fzyo82m'', expiration = Some 6000, lastAccessed = 1000\<rparr>"
  let ?s1 = "snd (acquireLock vacant ''x'' ''0.4fzyo82m'' (Some 5) (Some 200) ?s0)"
  have l0: "local_tier ?s0"
    by (simp add: local_tier_def local_engine_def isPrimaryActive_def)
  have m0: "map_of (memoryCache ?s0) ''x'' = None"
    by (simp add: local_engine_def)
  have l1: "local_tier ?s1"
    by (simp add: acquireLock_example local_tier_def isPrimaryActive_def)
  have m1: "map_of (memoryCache ?s1) ''x'' = Some ?en"
    by (simp add: acquireLock_example)
  have c1: "clock ?s1 = 1000"
    by (simp add: acquireLock_example)
  have h1: "lock_held (clock ?s1 + 200) ''x'' ?s1"
    using m1 c1 by (simp add: lock_held_def)
  note first = lock_entry_and_release [of 200 vacant "''x''" ?s0 JNull "''0.4fzyo82m''" 5 ?en]
  note second = lock_entry_and_release [of 200 vacant "''x''" ?s1 JNull "''0.ck81qzl9''" 5 ?en]
  have r0: "fst (acquireLock vacant ''x'' ''0.4fzyo82m'' (Some 5) (Some 200) ?s0) = Inr True"
    using first l0 m0 by simp
  have r1: "fst (acquireLock vacant ''x'' ''0.ck81qzl9'' (Some 5) (Some 200) ?s1) = Inr False"
    using second l1 h1 by blast
  have r2: "fst (releaseLock vacant ''x'' ?s1) = Inr True
          \<and> map_of (memoryCache (snd (releaseLock vacant ''x'' ?s1))) ''x'' = None"
    using second l1 m1 by blast
  show ?thesis
    using l0 r0 h1 c1 r1 r2 by simp
qed

subsection \<open>Failures of a tier\<close>



lemma setBatch_outcomes_returns: "\<exists>bs. fst (setBatch_outcomes E data lifespan s) = Inr bs"
proof (induction data arbitrary: s)
  case Nil
  show ?case by simp
next
  case (Cons item rest)
  obtain key v where item: "item = (key, v)" by (cases item)
  obtain b s1 where w: "set_op E key v lifespan s = (Inr b, s1)"
    using set_op_returns [of E key v lifespan s] by (cases "set_op E key v lifespan s") auto
  obtain bs where "fst (setBatch_outcomes E rest lifespan s1) = Inr bs"
    using Cons.IH by blast
  then show ?case
    using item w by (cases "setBatch_outcomes E rest lifespan s1") auto
qed

lemma getBatch_outcomes_returns: "\<exists>kvs. fst (getBatch_outcomes E keys s) = Inr kvs"
proof (induction keys arbitrary: s)
  case Nil
  show ?case by simp
next
  case (Cons key rest)
  obtain v s1 where g: "get E key s = (Inr v, s1)"
    using get_returns [of E key s] by (cases "get E key s") auto
  obtain kvs where "fst (getBatch_outcomes E rest s1) = Inr kvs"
    using Cons.IH by blast
  then show ?case
    using g by (cases "getBatch_outcomes E rest s1") auto
qed











lemma increment_remote:
  assumes "remote_tier s"
  shows "increment E key step s =
     (case (if step = 1 then redis_incr E key (remote s) else redis_incrby E key step (remote s)) of
        (Inl e, r1) \<Rightarrow> (Inl e, s\<lparr>remote := r1\<rparr>)
      | (Inr n, r1) \<Rightarrow> (Inr n, s\<lparr>remote := r1\<rparr>))"
  using assms
  by (simp add: increment_def increment_body_def remote_tier_ensure remote_tier_active
      split: prod.splits sum.splits)

lemma increment_local:
  assumes "local_tier s"
  shows "increment E key step s =
     (Inr (currentVal s key + step), snd (set_op E key (JNum (currentVal s key + step)) None s))"
  using assms
  by (simp add: increment_def increment_body_def local_tier_ensure local_tier_not_active Let_def
      set_local)




subsection \<open>Rate limiting\<close>

lemma floor_quotient_nonzero [simp]: "b \<noteq> 0 \<Longrightarrow> floor_quotient a b = Finite (a div b)"
  by (simp add: floor_quotient_def)

lemma clock_increment: "clock (snd (increment E key step s)) = clock s"
proof -
  have "clock (snd (increment_body E key step s)) = clock s"
    using clock_set_op [of E key "JNum (currentVal (ensure_connection E s) key + step)" None
        "ensure_connection E s"]
    by (auto simp: increment_body_def Let_def clock_ensure_connection
        split: prod.splits sum.splits)
  then show ?thesis
    by (auto simp: increment_def split: prod.splits sum.splits)
qed

text \<open>
  The formulas of \<^verbatim>\<open>rateLimit\<close>, for every \<open>windowSeconds\<close>: the window is
  \<open>floor (now / (windowSeconds * 1000))\<close>, the counter is the key
  \<^verbatim>\<open>traffic:<key>:<window>\<close>, and when the increment returns the count \<open>c\<close> the
  counter is written with the lifespan \<open>windowSeconds\<close> exactly when \<open>c = 1\<close>.
\<close>

lemma rateLimit_counted:
  assumes "fst (increment E (controlKey key (floor_quotient (clock s) (windowSeconds * 1000))) 1 s)
             = Inr c"
  shows "rateLimit E key maxRequests windowSeconds s =
     (Inr \<lparr>permitted = (c \<le> maxRequests),
           quota = max 0 (maxRequests - c),
           windowReset =
             times (times (plus_one (floor_quotient (clock s) (windowSeconds * 1000)))
                      windowSeconds) 1000,
           requestCount = c\<rparr>,
      if c = 1
      then snd (set_op E (controlKey key (floor_quotient (clock s) (windowSeconds * 1000)))
                  (JNum 1) (Some windowSeconds)
                  (snd (increment E
                          (controlKey key (floor_quotient (clock s) (windowSeconds * 1000))) 1 s)))
      else snd (increment E (controlKey key (floor_quotient (clock s) (windowSeconds * 1000))) 1 s))"
proof -
  let ?ck = "controlKey key (floor_quotient (clock s) (windowSeconds * 1000))"
  obtain s1 where i: "increment E ?ck 1 s = (Inr c, s1)"
    using assms by (cases "increment E ?ck 1 s") auto
  obtain b s2 where w: "set_op E ?ck (JNum 1) (Some windowSeconds) s1 = (Inr b, s2)"
    using set_op_returns [of E ?ck "JNum 1" "Some windowSeconds" s1]
    by (cases "set_op E ?ck (JNum 1) (Some windowSeconds) s1") auto
  show ?thesis
    using i w by (simp add: rateLimit_def rateLimit_body_def Let_def)
qed

text \<open>On the remote tier the count is the reply of \<^verbatim>\<open>INCR\<close>.\<close>

lemma rateLimit_remote_count:
  assumes "remote_tier s"
    and "redis_incr E (controlKey key (floor_quotient (clock s) (windowSeconds * 1000))) (remote s)
           = (Inr n, r1)"
  shows "fst (rateLimit E key maxRequests windowSeconds s) =
           window_result maxRequests windowSeconds
             (floor_quotient (clock s) (windowSeconds * 1000)) n"
proof -
  let ?ck = "controlKey key (floor_quotient (clock s) (windowSeconds * 1000))"
  have "increment E ?ck 1 s = (Inr n, s\<lparr>remote := r1\<rparr>)"
    using assms by (simp add: increment_remote)
  then show ?thesis
    using rateLimit_counted [of E key s windowSeconds n maxRequests]
    by (simp add: window_result_def)
qed

text \<open>
  Whenever the \<^verbatim>\<open>try\<close> block throws, as it does when \<^verbatim>\<open>INCR\<close> fails, the call is
  permitted with one request counted.
\<close>

lemma clock_rateLimit_body:
  "clock (snd (rateLimit_body E key maxRequests windowSeconds s)) = clock s"
proof -
  let ?ck = "controlKey key (floor_quotient (clock s) (windowSeconds * 1000))"
  obtain r s1 where i: "increment E ?ck 1 s = (r, s1)"
    by (cases "increment E ?ck 1 s")
  have c1: "clock s1 = clock s"
    using clock_increment [of E ?ck 1 s] i by simp
  have c2: "clock (snd (set_op E ?ck (JNum 1) (Some windowSeconds) s1)) = clock s"
    using clock_set_op [of E ?ck "JNum 1" "Some windowSeconds" s1] c1 by simp
  show ?thesis
    using i c1 c2
    by (auto simp: rateLimit_body_def Let_def split: prod.splits sum.splits if_splits)
qed

lemma rateLimit_handler:
  assumes "fst (rateLimit_body E key maxRequests windowSeconds s) = Inl e"
  shows "fst (rateLimit E key maxRequests windowSeconds s) =
     Inr \<lparr>permitted = True, quota = maxRequests - 1,
          windowReset = Finite (clock s + windowSeconds * 1000), requestCount = 1\<rparr>"
proof -
  obtain s1 where b: "rateLimit_body E key maxRequests windowSeconds s = (Inl e, s1)"
    using assms by (cases "rateLimit_body E key maxRequests windowSeconds s") auto
  have "clock s1 = clock s"
    using clock_rateLimit_body [of E key maxRequests windowSeconds s] b by simp
  then show ?thesis
    using b by (simp add: rateLimit_def)
qed

lemma rateLimit_remote_failure:
  assumes "remote_tier s"
    and "redis_incr E (controlKey key (floor_quotient (clock s) (windowSeconds * 1000))) (remote s)
           = (Inl e, r1)"
  shows "fst (rateLimit E key maxRequests windowSeconds s) =
     Inr \<lparr>permitted = True, quota = maxRequests - 1,
          windowReset = Finite (clock s + windowSeconds * 1000), requestCount = 1\<rparr>"
proof -
  have "fst (rateLimit_body E key maxRequests windowSeconds s) = Inl e"
    using assms by (simp add: rateLimit_body_def Let_def increment_remote)
  then show ?thesis by (rule rateLimit_handler)
qed

text \<open>
  A call on the local tier: the count is the live count of the entry plus one, and the
  entry is left with the expiry of the window only by the call that counts 1. Every other
  call leaves the expiry that the write-back of \<^verbatim>\<open>increment\<close> computed, from the
  default lifespan of the engine.
\<close>

lemma rateLimit_local:
  assumes "local_tier s"
  shows "fst (rateLimit E key maxRequests windowSeconds s) =
           window_result maxRequests windowSeconds (floor_quotient (clock s) (windowSeconds * 1000))
             (currentVal s (controlKey key (floor_quotient (clock s) (windowSeconds * 1000))) + 1)"
    and "local_tier (snd (rateLimit E key maxRequests windowSeconds s))"
    and "config (snd (rateLimit E key maxRequests windowSeconds s)) = config s"
    and "map_of (memoryCache (snd (rateLimit E key maxRequests windowSeconds s)))
           (controlKey key (floor_quotient (clock s) (windowSeconds * 1000))) =
         Some \<lparr>entry_value =
                  JNum (currentVal s
                          (controlKey key (floor_quotient (clock s) (windowSeconds * 1000))) + 1),
               expiration =
                 (if currentVal s
                       (controlKey key (floor_quotient (clock s) (windowSeconds * 1000))) + 1 = 1
                  then Some (clock s + windowSeconds * 1000)
                  else if entryLifespan (config s) > 0
                       then Some (clock s + entryLifespan (config s) * 1000) else None),
               lastAccessed = clock s\<rparr>"
proof -
  let ?w = "floor_quotient (clock s) (windowSeconds * 1000)"
  let ?ck = "controlKey key ?w"
  let ?c = "currentVal s ?ck + 1"
  obtain s1 where s1: "s1 = snd (set_op E ?ck (JNum ?c) None s)" by simp
  have i: "increment E ?ck 1 s = (Inr ?c, s1)"
    using assms s1 by (simp add: increment_local)
  have l1: "local_tier s1" "config s1 = config s" "clock s1 = clock s"
    using assms s1 by (simp_all add: local_tier_set_op config_set_local clock_set_op)
  have m1: "map_of (memoryCache s1) ?ck =
      Some \<lparr>entry_value = JNum ?c,
            expiration =
              (if entryLifespan (config s) > 0
               then Some (clock s + entryLifespan (config s) * 1000) else None),
            lastAccessed = clock s\<rparr>"
    using assms s1 by (simp add: set_local_stored)
  have r: "rateLimit E key maxRequests windowSeconds s =
      (window_result maxRequests windowSeconds ?w ?c,
       if ?c = 1 then snd (set_op E ?ck (JNum 1) (Some windowSeconds) s1) else s1)"
    using rateLimit_counted [of E key s windowSeconds ?c maxRequests] i
    by (simp add: window_result_def)
  show "fst (rateLimit E key maxRequests windowSeconds s) =
      window_result maxRequests windowSeconds ?w ?c"
    by (simp add: r)
  show "local_tier (snd (rateLimit E key maxRequests windowSeconds s))"
    using l1(1) local_tier_set_op [OF l1(1), of E ?ck "JNum 1" "Some windowSeconds"]
    by (simp add: r)
  show "config (snd (rateLimit E key maxRequests windowSeconds s)) = config s"
    using l1(2) config_set_local [OF l1(1), of E ?ck "JNum 1" "Some windowSeconds"]
    by (simp add: r)
  show "map_of (memoryCache (snd (rateLimit E key maxRequests windowSeconds s))) ?ck =
         Some \<lparr>entry_value = JNum ?c,
               expiration =
                 (if ?c = 1 then Some (clock s + windowSeconds * 1000)
                  else if entryLifespan (config s) > 0
                       then Some (clock s + entryLifespan (config s) * 1000) else None),
               lastAccessed = clock s\<rparr>"
  proof (cases "?c = 1")
    case True
    have "map_of (memoryCache (snd (set_op E ?ck (JNum 1) (Some windowSeconds) s1))) ?ck =
        Some \<lparr>entry_value = JNum 1, expiration = Some (clock s + windowSeconds * 1000),
              lastAccessed = clock s\<rparr>"
      using set_local_stored [OF l1(1), of E ?ck "JNum 1" "Some windowSeconds"] l1(3) by simp
    then show ?thesis using True by (simp add: r)
  next
    case False
    then show ?thesis using m1 by (simp add: r)
  qed
qed

text \<open>
  With a window of no length, \<open>windowSeconds = 0\<close>, the division is by zero: at a positive
  time the window is \<open>Infinity\<close>, the counter is the key \<^verbatim>\<open>traffic:<key>:Infinity\<close>, and
  \<open>windowReset\<close> is \<open>Infinity * 0 = NaN\<close>.
\<close>

lemma rateLimit_window_of_no_length:
  "fst (rateLimit vacant ''u'' 3 0 (local_engine default_config 1000 [])) =
     Inr \<lparr>permitted = True, quota = 2, windowReset = NaN, requestCount = 1\<rparr>
   \<and> map_of (memoryCache (snd (rateLimit vacant ''u'' 3 0 (local_engine default_config 1000 []))))
       ''traffic:u:Infinity'' =
     Some \<lparr>entry_value = JNum 1, expiration = Some 1000, lastAccessed = 1000\<rparr>"
proof -
  let ?s = "local_engine default_config 1000 []"
  have l: "local_tier ?s"
    by (simp add: local_tier_def local_engine_def isPrimaryActive_def)
  have w: "floor_quotient (clock ?s) (0 * 1000) = PosInfinity"
    by (simp add: floor_quotient_def local_engine_def)
  have k: "controlKey ''u'' PosInfinity = ''traffic:u:Infinity''"
    by (simp add: controlKey_def number_to_string_def)
  have v: "currentVal ?s ''traffic:u:Infinity'' = 0"
    by (simp add: currentVal_def local_engine_def)
  note st = rateLimit_local [OF l, of vacant "''u''" 3 0]
  have "fst (rateLimit vacant ''u'' 3 0 ?s) = window_result 3 0 PosInfinity 1"
    using st(1) by (simp only: w k v) simp
  moreover have "map_of (memoryCache (snd (rateLimit vacant ''u'' 3 0 ?s))) ''traffic:u:Infinity'' =
      Some \<lparr>entry_value = JNum 1, expiration = Some 1000, lastAccessed = 1000\<rparr>"
    using st(4) by (simp only: w k v) (simp add: local_engine_def)
  ultimately show ?thesis
    by (simp add: window_result_def times_def plus_one_def)
qed

lemma window_bounds:
  fixes t d w :: int
  assumes "0 < d" and "t div d = w"
  shows "w * d \<le> t" and "t < (w + 1) * d"
proof -
  have "t = d * (t div d) + t mod d" by simp
  moreover have "0 \<le> t mod d" "t mod d < d" using assms(1) by simp_all
  ultimately have "d * w \<le> t \<and> t < d * w + d" using assms(2) by auto
  then show "w * d \<le> t" and "t < (w + 1) * d"
    by (simp_all add: algebra_simps)
qed

lemma currentVal_counter_holds:
  assumes "counter_holds c until key s" and "clock s \<le> until"
  shows "currentVal s key = c"
  using assms
  by (auto simp: counter_holds_def currentVal_def is_live_def split: option.splits if_splits)

text \<open>
  For comparison: when the default lifespan of the engine is not positive, or is at least
  the length of the window, the counter of the local tier lives through the window and a
  run of calls in one window counts 1, 2, 3, ...
\<close>

lemma rateLimit_calls_window:
  assumes "0 < windowSeconds"
  shows "local_tier s \<Longrightarrow>
     entryLifespan (config s) \<le> 0 \<or> windowSeconds \<le> entryLifespan (config s) \<Longrightarrow>
     list_all (\<lambda>t. t div (windowSeconds * 1000) = window) ts \<Longrightarrow>
     counter_holds c ((window + 1) * (windowSeconds * 1000)) (controlKey key (Finite window)) s \<Longrightarrow>
     0 \<le> c \<Longrightarrow>
     rateLimit_calls E key maxRequests windowSeconds ts s =
       map (\<lambda>i. window_result maxRequests windowSeconds (Finite window) (c + int i))
         [1..<Suc (length ts)]"
proof (induction ts arbitrary: s c)
  case Nil
  show ?case by simp
next
  case (Cons t ts)
  let ?d = "windowSeconds * 1000"
  let ?until = "(window + 1) * ?d"
  let ?ck = "controlKey key (Finite window)"
  let ?s0 = "s\<lparr>clock := t\<rparr>"
  let ?s1 = "snd (rateLimit E key maxRequests windowSeconds ?s0)"
  have d: "0 < ?d" using assms by simp
  have tw: "t div ?d = window" using Cons.prems(3) by simp
  have fq: "floor_quotient (clock ?s0) ?d = Finite window"
    using d tw by simp
  have lo: "window * ?d \<le> t" and hi: "t < ?until"
    using window_bounds [OF d tw] by simp_all
  have l0: "local_tier ?s0" using Cons.prems(1) by simp
  have h0: "counter_holds c ?until ?ck ?s0"
    using Cons.prems(4) by (simp add: counter_holds_def)
  have cv: "currentVal ?s0 ?ck = c"
    using currentVal_counter_holds [OF h0] hi by simp
  note step = rateLimit_local [OF l0, of E key maxRequests windowSeconds]
  have r: "fst (rateLimit E key maxRequests windowSeconds ?s0) =
      window_result maxRequests windowSeconds (Finite window) (c + 1)"
    using step(1) by (simp only: fq cv)
  have l1: "local_tier ?s1" by (rule step(2))
  have c1: "config ?s1 = config s" using step(3) by simp
  have until: "?until \<le> t + ?d"
    using lo by (simp add: algebra_simps)
  have h1: "counter_holds (c + 1) ?until ?ck ?s1"
  proof -
    have "map_of (memoryCache ?s1) ?ck =
        Some \<lparr>entry_value = JNum (c + 1),
              expiration =
                (if c + 1 = 1 then Some (clock ?s0 + ?d)
                 else if entryLifespan (config ?s0) > 0
                      then Some (clock ?s0 + entryLifespan (config ?s0) * 1000) else None),
              lastAccessed = clock ?s0\<rparr>"
      using step(4) by (simp only: fq cv)
    then have m: "map_of (memoryCache ?s1) ?ck =
        Some \<lparr>entry_value = JNum (c + 1),
              expiration =
                (if c + 1 = 1 then Some (t + ?d)
                 else if entryLifespan (config s) > 0
                      then Some (t + entryLifespan (config s) * 1000) else None),
              lastAccessed = t\<rparr>"
      by simp
    have ne: "c + 1 \<noteq> 0" using Cons.prems(5) by simp
    show ?thesis
      using m ne until Cons.prems(2) by (auto simp: counter_holds_def)
  qed
  have rest: "rateLimit_calls E key maxRequests windowSeconds ts ?s1 =
      map (\<lambda>i. window_result maxRequests windowSeconds (Finite window) (c + 1 + int i))
        [1..<Suc (length ts)]"
    using Cons.IH [OF l1 _ _ h1] Cons.prems(2,3,5) c1 by simp
  have shift: "[1..<Suc (length (t # ts))] = 1 # map Suc [1..<Suc (length ts)]"
    by (simp add: upt_conv_Cons map_Suc_upt del: upt_Suc)
  have "rateLimit_calls E key maxRequests windowSeconds (t # ts) s =
      fst (rateLimit E key maxRequests windowSeconds ?s0)
        # rateLimit_calls E key maxRequests windowSeconds ts ?s1"
    by (simp split: prod.splits)
  then show ?case
    using r rest by (simp only: shift) (simp add: o_def ac_simps)
qed

lemma rateLimit_four_calls_default_lifespan:
  "rateLimit_calls vacant ''u'' 3 60 [1000, 2000, 30000, 59999] (local_engine default_config 0 []) =
     [Inr \<lparr>permitted = True, quota = 2, windowReset = Finite 60000, requestCount = 1\<rparr>,
      Inr \<lparr>permitted = True, quota = 1, windowReset = Finite 60000, requestCount = 2\<rparr>,
      Inr \<lparr>permitted = True, quota = 0, windowReset = Finite 60000, requestCount = 3\<rparr>,
      Inr \<lparr>permitted = False, quota = 0, windowReset = Finite 60000, requestCount = 4\<rparr>]"
proof -
  let ?s = "local_engine default_config 0 []"
  have l: "local_tier ?s"
    by (simp add: local_tier_def local_engine_def isPrimaryActive_def)
  have p: "entryLifespan (config ?s) \<le> 0 \<or> 60 \<le> entryLifespan (config ?s)"
    by (simp add: local_engine_def)
  have ts: "list_all (\<lambda>t. t div (60 * 1000) = 0) [1000, 2000, 30000, 59999::int]"
    by simp
  have h: "counter_holds 0 ((0 + 1) * (60 * 1000)) (controlKey ''u'' (Finite 0)) ?s"
    by (simp add: counter_holds_def local_engine_def)
  have upt4: "[1..<Suc (length [1000, 2000, 30000, 59999::int])] = [1, 2, 3, 4]"
    by (simp add: upt_rec)
  have "rateLimit_calls vacant ''u'' 3 60 [1000, 2000, 30000, 59999] ?s =
      map (\<lambda>i. window_result 3 60 (Finite 0) (0 + int i))
        [1..<Suc (length [1000, 2000, 30000, 59999::int])]"
    by (rule rateLimit_calls_window [OF _ l p ts h]) simp_all
  then show ?thesis
    by (simp only: upt4) (simp add: window_result_def times_def plus_one_def)
qed

text \<open>
  The remote tier keeps the count through the window whatever the default lifespan: with
  a backend whose \<^verbatim>\<open>INCR\<close> counts, four calls of one window return the counts 1, 2, 3, 4
  and the fourth is refused, also with a default lifespan of one second.
\<close>

lemma rateLimit_four_calls_remote:
  "rateLimit_calls counting ''u'' 3 60 [0, 2000, 4000, 6000] (remote_engine short_lived 0 0) =
     [Inr \<lparr>permitted = True, quota = 2, windowReset = Finite 60000, requestCount = 1\<rparr>,
      Inr \<lparr>permitted = True, quota = 1, windowReset = Finite 60000, requestCount = 2\<rparr>,
      Inr \<lparr>permitted = True, quota = 0, windowReset = Finite 60000, requestCount = 3\<rparr>,
      Inr \<lparr>permitted = False, quota = 0, windowReset = Finite 60000, requestCount = 4\<rparr>]"
proof -
  have step: "fst (rateLimit counting ''u'' 3 60 s) = window_result 3 60 (Finite 0) (int (Suc (remote s)))
      \<and> remote_tier (snd (rateLimit counting ''u'' 3 60 s))
      \<and> remote (snd (rateLimit counting ''u'' 3 60 s)) = Suc (remote s)"
    if "remote_tier s" and "clock s div 60000 = 0" for s :: "nat engine"
  proof -
    let ?ck = "controlKey ''u'' (Finite 0)"
    have fq: "floor_quotient (clock s) (60 * 1000) = Finite 0"
      using that(2) by simp
    have i: "increment counting ?ck 1 s = (Inr (int (Suc (remote s))), s\<lparr>remote := Suc (remote s)\<rparr>)"
      using that(1) by (simp add: increment_remote counting_def)
    have t1: "remote_tier (s\<lparr>remote := n\<rparr>)" for n
      using that(1) by (simp add: remote_tier_def isPrimaryActive_def)
    have w: "snd (set_op counting ?ck (JNum 1) (Some 60) s') = count_write s'"
      if "remote_tier s'" for s' :: "nat engine"
      using that
      by (simp add: set_op_def set_body_def Let_def remote_tier_ensure remote_tier_active
          counting_def)
    have r: "rateLimit counting ''u'' 3 60 s =
        (window_result 3 60 (Finite 0) (int (Suc (remote s))),
         if int (Suc (remote s)) = 1 then count_write (s\<lparr>remote := Suc (remote s)\<rparr>)
         else s\<lparr>remote := Suc (remote s)\<rparr>)"
      using rateLimit_counted [of counting "''u''" s 60 "int (Suc (remote s))" 3, unfolded fq] i
      by (simp add: window_result_def w t1)
    show ?thesis
      using that(1)
      by (simp add: r remote_tier_def isPrimaryActive_def count_write_def)
  qed
  define s0 where "s0 = (remote_engine short_lived 0 (0::nat))\<lparr>clock := 0\<rparr>"
  define s1 where "s1 = (snd (rateLimit counting ''u'' 3 60 s0))\<lparr>clock := 2000\<rparr>"
  define s2 where "s2 = (snd (rateLimit counting ''u'' 3 60 s1))\<lparr>clock := 4000\<rparr>"
  define s3 where "s3 = (snd (rateLimit counting ''u'' 3 60 s2))\<lparr>clock := 6000\<rparr>"
  have t0: "remote_tier s0" "clock s0 div 60000 = 0" "remote s0 = 0"
    by (simp_all add: s0_def remote_tier_def remote_engine_def isPrimaryActive_def)
  note a0 = step [OF t0(1,2)]
  have t1: "remote_tier s1" "clock s1 div 60000 = 0" "remote s1 = 1"
    using a0 t0(3) by (simp_all add: s1_def remote_tier_def isPrimaryActive_def)
  note a1 = step [OF t1(1,2)]
  have t2: "remote_tier s2" "clock s2 div 60000 = 0" "remote s2 = 2"
    using a1 t1(3) by (simp_all add: s2_def remote_tier_def isPrimaryActive_def)
  note a2 = step [OF t2(1,2)]
  have t3: "remote_tier s3" "clock s3 div 60000 = 0" "remote s3 = 3"
    using a2 t2(3) by (simp_all add: s3_def remote_tier_def isPrimaryActive_def)
  note a3 = step [OF t3(1,2)]
  have "rateLimit_calls counting ''u'' 3 60 [0, 2000, 4000, 6000] (remote_engine short_lived 0 0) =
      [fst (rateLimit counting ''u'' 3 60 s0), fst (rateLimit counting ''u'' 3 60 s1),
       fst (rateLimit counting ''u'' 3 60 s2), fst (rateLimit counting ''u'' 3 60 s3)]"
    by (simp add: case_prod_beta s0_def s1_def s2_def s3_def)
  then show ?thesis
    using a0 a1 a2 a3 t0(3) t1(3) t2(3) t3(3)
    by (simp add: window_result_def times_def plus_one_def)
qed

text \<open>
  C2. The claim fails on the local tier: requests of one window are not counted through
  the window. Every local increment writes the counter back with \<^verbatim>\<open>set\<close> and no
  lifespan, which replaces the expiry of the window by the current time plus the default
  lifespan of the engine. Let that lifespan be positive, let a call at the time \<open>clock s\<close>
  find a live count of at least one for its window, and let a later time \<open>t\<close> of the same
  window lie after \<open>clock s + entryLifespan * 1000\<close>. Then the call leaves the counter
  with the expiry \<open>clock s + entryLifespan * 1000\<close>, and the call at \<open>t\<close> finds it expired
  and returns \<open>requestCount = 1\<close>, where the claim has the count of the window plus two:
  the limit is not enforced.
\<close>

theorem rateLimit_local_counter_restarts:
  assumes "local_tier s"
    and "0 < windowSeconds"
    and "0 < entryLifespan (config s)"
    and "0 \<le> clock s"
    and "clock s div (windowSeconds * 1000) = window"
    and "t div (windowSeconds * 1000) = window"
    and "1 \<le> currentVal s (controlKey key (Finite window))"
    and "clock s + entryLifespan (config s) * 1000 < t"
  shows "fst (rateLimit E key maxRequests windowSeconds s) =
           Inr \<lparr>permitted = (currentVal s (controlKey key (Finite window)) + 1 \<le> maxRequests),
                quota = max 0 (maxRequests - (currentVal s (controlKey key (Finite window)) + 1)),
                windowReset = Finite ((window + 1) * windowSeconds * 1000),
                requestCount = currentVal s (controlKey key (Finite window)) + 1\<rparr>
     \<and> map_of (memoryCache (snd (rateLimit E key maxRequests windowSeconds s)))
         (controlKey key (Finite window)) =
       Some \<lparr>entry_value = JNum (currentVal s (controlKey key (Finite window)) + 1),
             expiration = Some (clock s + entryLifespan (config s) * 1000),
             lastAccessed = clock s\<rparr>
     \<and> fst (rateLimit E key maxRequests windowSeconds
              ((snd (rateLimit E key maxRequests windowSeconds s))\<lparr>clock := t\<rparr>)) =
           Inr \<lparr>permitted = (1 \<le> maxRequests),
                quota = max 0 (maxRequests - 1),
                windowReset = Finite ((window + 1) * windowSeconds * 1000),
                requestCount = 1\<rparr>"
proof -
  let ?d = "windowSeconds * 1000"
  let ?ck = "controlKey key (Finite window)"
  let ?c = "currentVal s ?ck + 1"
  let ?x = "clock s + entryLifespan (config s) * 1000"
  let ?s1 = "snd (rateLimit E key maxRequests windowSeconds s)"
  let ?s2 = "?s1\<lparr>clock := t\<rparr>"
  have d: "?d \<noteq> 0" using assms(2) by simp
  have fq: "floor_quotient (clock s) ?d = Finite window"
    using d assms(5) by simp
  have fq2: "floor_quotient (clock ?s2) ?d = Finite window"
    using d assms(6) by simp
  have ne: "?c \<noteq> 1" using assms(7) by simp
  note st = rateLimit_local [OF assms(1), of E key maxRequests windowSeconds]
  have r1: "fst (rateLimit E key maxRequests windowSeconds s) =
      window_result maxRequests windowSeconds (Finite window) ?c"
    using st(1) by (simp only: fq)
  have "map_of (memoryCache ?s1) ?ck =
      Some \<lparr>entry_value = JNum ?c,
            expiration =
              (if ?c = 1 then Some (clock s + ?d)
               else if entryLifespan (config s) > 0 then Some ?x else None),
            lastAccessed = clock s\<rparr>"
    using st(4) by (simp only: fq)
  then have m: "map_of (memoryCache ?s1) ?ck =
      Some \<lparr>entry_value = JNum ?c, expiration = Some ?x, lastAccessed = clock s\<rparr>"
    using ne assms(3) by simp
  have l2: "local_tier ?s2" using st(2) by simp
  have x: "?x \<noteq> 0" using assms(3,4) by (simp add: add_nonneg_eq_0_iff)
  have v: "currentVal ?s2 ?ck = 0"
    using m x assms(8) by (simp add: currentVal_def is_live_def)
  have r2: "fst (rateLimit E key maxRequests windowSeconds ?s2) =
      window_result maxRequests windowSeconds (Finite window) 1"
    using rateLimit_local(1) [OF l2, of E key maxRequests windowSeconds]
    by (simp only: fq2 v) simp
  show ?thesis
    using r1 m r2 by (simp add: window_result_def times_def plus_one_def)
qed

text \<open>
  With a default lifespan of one second, \<open>maxRequests = 3\<close> and a window of 60 seconds,
  the calls at 0, 2000, 4000 and 6000 milliseconds of one window are all permitted and
  count 1, 2, 1, 2: the theorem at the second and third call.
\<close>

theorem rateLimit_local_counter_restarts_witness:
  "local_tier ((snd (rateLimit vacant ''u'' 3 60 (local_engine short_lived 0 [])))\<lparr>clock := 2000\<rparr>)
   \<and> entryLifespan short_lived = 1
   \<and> (2000::int) div (60 * 1000) = 0 \<and> (4000::int) div (60 * 1000) = 0
   \<and> currentVal ((snd (rateLimit vacant ''u'' 3 60 (local_engine short_lived 0 [])))\<lparr>clock := 2000\<rparr>)
       (controlKey ''u'' (Finite 0)) = 1
   \<and> (2000::int) + 1 * 1000 < 4000
   \<and> rateLimit_calls vacant ''u'' 3 60 [0, 2000, 4000, 6000] (local_engine short_lived 0 []) =
       [Inr \<lparr>permitted = True, quota = 2, windowReset = Finite 60000, requestCount = 1\<rparr>,
        Inr \<lparr>permitted = True, quota = 1, windowReset = Finite 60000, requestCount = 2\<rparr>,
        Inr \<lparr>permitted = True, quota = 2, windowReset = Finite 60000, requestCount = 1\<rparr>,
        Inr \<lparr>permitted = True, quota = 1, windowReset = Finite 60000, requestCount = 2\<rparr>]"
proof -
  let ?ck = "controlKey ''u'' (Finite 0)"
  define s0 where "s0 = (local_engine short_lived 0 [])\<lparr>clock := 0\<rparr>"
  define s1 where "s1 = (snd (rateLimit vacant ''u'' 3 60 s0))\<lparr>clock := 2000\<rparr>"
  define s2 where "s2 = (snd (rateLimit vacant ''u'' 3 60 s1))\<lparr>clock := 4000\<rparr>"
  define s3 where "s3 = (snd (rateLimit vacant ''u'' 3 60 s2))\<lparr>clock := 6000\<rparr>"
  have s00: "s0 = local_engine short_lived 0 []"
    by (simp add: s0_def local_engine_def)
  have lifespan: "entryLifespan short_lived = 1"
    by (simp add: short_lived_def make_config_def)
  have l0: "local_tier s0" and c0: "config s0 = short_lived" and k0: "clock s0 = 0"
    and v0: "currentVal s0 ?ck = 0"
    by (simp_all add: s0_def local_tier_def local_engine_def isPrimaryActive_def
        short_lived_def make_config_def currentVal_def)
  have fq0: "floor_quotient (clock s0) (60 * 1000) = Finite 0"
    using k0 by simp
  note st0 = rateLimit_local [OF l0, of vacant "''u''" 3 60, unfolded fq0]
  have r0: "fst (rateLimit vacant ''u'' 3 60 s0) = window_result 3 60 (Finite 0) 1"
    using st0(1) v0 by simp
  have l1: "local_tier s1" and c1: "config s1 = short_lived" and k1: "clock s1 = 2000"
    using st0(2,3) c0 by (simp_all add: s1_def)
  have "map_of (memoryCache (snd (rateLimit vacant ''u'' 3 60 s0))) ?ck =
      Some \<lparr>entry_value = JNum 1, expiration = Some 60000, lastAccessed = 0\<rparr>"
    using st0(4) v0 k0 by simp
  then have m1: "map_of (memoryCache s1) ?ck =
      Some \<lparr>entry_value = JNum 1, expiration = Some 60000, lastAccessed = 0\<rparr>"
    by (simp add: s1_def)
  have v1: "currentVal s1 ?ck = 1"
    using m1 k1 by (simp add: currentVal_def is_live_def)
  have both: "fst (rateLimit vacant ''u'' 3 60 s1) =
           Inr \<lparr>permitted = True, quota = 1, windowReset = Finite 60000, requestCount = 2\<rparr>
     \<and> map_of (memoryCache (snd (rateLimit vacant ''u'' 3 60 s1))) ?ck =
       Some \<lparr>entry_value = JNum 2, expiration = Some 3000, lastAccessed = 2000\<rparr>
     \<and> fst (rateLimit vacant ''u'' 3 60 s2) =
           Inr \<lparr>permitted = True, quota = 2, windowReset = Finite 60000, requestCount = 1\<rparr>"
    using rateLimit_local_counter_restarts [of s1 60 0 4000 "''u''" vacant 3]
      l1 c1 k1 v1 lifespan
    by (simp add: s2_def)
  have l2: "local_tier s2" and c2: "config s2 = short_lived" and k2: "clock s2 = 4000"
    using rateLimit_local(2,3) [OF l1, of vacant "''u''" 3 60] c1 by (simp_all add: s2_def)
  have v2: "currentVal s2 ?ck = 0"
    using both k2 by (simp add: s2_def currentVal_def is_live_def)
  have fq2: "floor_quotient (clock s2) (60 * 1000) = Finite 0"
    using k2 by simp
  note st2 = rateLimit_local [OF l2, of vacant "''u''" 3 60, unfolded fq2]
  have l3: "local_tier s3" and c3: "config s3 = short_lived" and k3: "clock s3 = 6000"
    using st2(2,3) c2 by (simp_all add: s3_def)
  have "map_of (memoryCache (snd (rateLimit vacant ''u'' 3 60 s2))) ?ck =
      Some \<lparr>entry_value = JNum 1, expiration = Some 64000, lastAccessed = 4000\<rparr>"
    using st2(4) v2 k2 by simp
  then have m3: "map_of (memoryCache s3) ?ck =
      Some \<lparr>entry_value = JNum 1, expiration = Some 64000, lastAccessed = 4000\<rparr>"
    by (simp add: s3_def)
  have v3: "currentVal s3 ?ck = 1"
    using m3 k3 by (simp add: currentVal_def is_live_def)
  have fq3: "floor_quotient (clock s3) (60 * 1000) = Finite 0"
    using k3 by simp
  have r3: "fst (rateLimit vacant ''u'' 3 60 s3) = window_result 3 60 (Finite 0) 2"
    using rateLimit_local(1) [OF l3, of vacant "''u''" 3 60, unfolded fq3] v3 by simp
  have run: "rateLimit_calls vacant ''u'' 3 60 [0, 2000, 4000, 6000] (local_engine short_lived 0 []) =
      [fst (rateLimit vacant ''u'' 3 60 s0), fst (rateLimit vacant ''u'' 3 60 s1),
       fst (rateLimit vacant ''u'' 3 60 s2), fst (rateLimit vacant ''u'' 3 60 s3)]"
    by (simp add: case_prod_beta s0_def s1_def s2_def s3_def)
  have "local_tier s1 \<and> currentVal s1 ?ck = 1"
    using l1 v1 by simp
  then have pre: "local_tier ((snd (rateLimit vacant ''u'' 3 60 (local_engine short_lived 0 [])))\<lparr>clock := 2000\<rparr>)
      \<and> currentVal ((snd (rateLimit vacant ''u'' 3 60 (local_engine short_lived 0 [])))\<lparr>clock := 2000\<rparr>)
          ?ck = 1"
    by (simp only: s1_def s00)
  show ?thesis
    using pre lifespan run both r0 r3
    by (simp add: window_result_def times_def plus_one_def)
qed

end
